theory Spec2Isabelle
  imports Main "HOL-Library.Sublist" "HOL-Library.AList" "HOL-Library.Multiset"
begin

section \<open>Diagnostics of a source file (sourceFile.ts)\<close>

subsection \<open>The language-server data the code handles\<close>

text \<open>
  \<^verbatim>\<open>Position\<close>, \<^verbatim>\<open>Range\<close> and \<^verbatim>\<open>Diagnostic\<close> of vscode-languageserver. The optional
  fields of a diagnostic are options; a severity and a tag are the protocol's numbers.
\<close>

record Position =
  line :: nat
  character :: nat

record Range =
  start :: Position
  endp :: Position

record Diagnostic =
  range_d :: Range
  message :: string
  severity :: "nat option"
  code :: "string option"
  source :: "string option"
  tags :: "nat list option"

subsection \<open>The producers of \<^verbatim>\<open>useDiagnostics\<close>\<close>

text \<open>
  \<^verbatim>\<open>useDiagnostics\<close> builds ten producer records \<^verbatim>\<open>[Ref<Diagnostic[]>, Diagnostic[], number]\<close>:
  three in \<^verbatim>\<open>nonTs\<close>, three in \<^verbatim>\<open>templateTs\<close> and four in \<^verbatim>\<open>scriptTs\<close>. The arrays
  \<^verbatim>\<open>all\<close> and \<^verbatim>\<open>keep\<close> of a run hold references to these same records, so the model
  names each record and keeps its two mutable slots (\<^verbatim>\<open>diag[1]\<close>, the last result, and
  \<^verbatim>\<open>diag[2]\<close>, the last cost) in a store indexed by that name.
\<close>

datatype producer =
    StylesValidation
  | TemplateValidation
  | ScriptExistValidation
  | TemplateScriptValidation1
  | TemplateScriptValidation2
  | TemplateScriptValidation3
  | ScriptValidation1
  | ScriptValidation2
  | ScriptValidation3
  | ScriptValidationUnused

definition nonTs :: "producer list" where
  "nonTs = [StylesValidation, TemplateValidation, ScriptExistValidation]"

record store =
  lastResult :: "producer \<Rightarrow> Diagnostic list"
  lastCost :: "producer \<Rightarrow> int"
  templateTs :: "producer list"
  scriptTs :: "producer list"

definition initial_store :: store where
  "initial_store =
     \<lparr> lastResult = (\<lambda>_. []),
       lastCost = (\<lambda>_. 0),
       templateTs = [TemplateScriptValidation1, TemplateScriptValidation2, TemplateScriptValidation3],
       scriptTs = [ScriptValidation1, ScriptValidation2, ScriptValidation3, ScriptValidationUnused] \<rparr>"

text \<open>The flags \<^verbatim>\<open>lastUpdateChanged\<close> that \<^verbatim>\<open>update\<close> leaves behind.\<close>

record lastUpdateChanged =
  template :: bool
  script :: bool
  scriptSetup :: bool

text \<open>
  What one run of the returned async function is given. \<^verbatim>\<open>isCancel\<close> is optional; when
  present, \<^verbatim>\<open>isCancel i\<close> is what its \<open>i\<close>-th call of the run resolves to (the loop
  calls it once per iteration, so \<open>i\<close> is also the iteration). \<^verbatim>\<open>value_at i p\<close> is
  \<^verbatim>\<open>diag[0].value\<close> of producer \<open>p\<close> read in iteration \<open>i\<close>, \<^verbatim>\<open>elapsed i p\<close> the
  measured \<^verbatim>\<open>Date.now() - startTime\<close>, and \<^verbatim>\<open>dedupe\<close> stands for
  \<^verbatim>\<open>dedupe.withDiagnostics\<close>, which lives in another file.
\<close>

record run_env =
  isCancel :: "(nat \<Rightarrow> bool) option"
  withSideEffect :: bool
  changed :: lastUpdateChanged
  value_at :: "nat \<Rightarrow> producer \<Rightarrow> Diagnostic list"
  elapsed :: "nat \<Rightarrow> producer \<Rightarrow> int"
  dedupe :: "Diagnostic list \<Rightarrow> Diagnostic list"

text \<open>What a run does that can be seen from outside, in order.\<close>

datatype event =
    Poll bool
  | Compute producer "Diagnostic list"
  | Batch "Diagnostic list"

text \<open>
  Lines 458-492: the arrays \<^verbatim>\<open>all\<close> and \<^verbatim>\<open>keep\<close>, from the two sorted families.
\<close>

definition schedule ::
  "lastUpdateChanged \<Rightarrow> bool \<Rightarrow> producer list \<Rightarrow> producer list \<Rightarrow> producer list \<times> producer list"
where
  "schedule ch wse sTs tTs =
     (if script ch \<or> scriptSetup ch then
        (if wse then ((nonTs @ sTs) @ tTs, []) else (nonTs @ sTs, [] @ tTs))
      else if template ch then
        (if wse then ((nonTs @ tTs) @ sTs, []) else (nonTs @ tTs, [] @ sTs))
      else
        (if wse then ((nonTs @ sTs) @ tTs, []) else (nonTs, ([] @ sTs) @ tTs)))"

text \<open>
  Line 495, \<^verbatim>\<open>await isCancel?.()\<close>: without a callback the expression is undefined,
  hence falsy, and nothing is called. \<^verbatim>\<open>polled\<close> is the call as an event of the run,
  \<^verbatim>\<open>cancelled\<close> its truth value.
\<close>

definition polled :: "run_env \<Rightarrow> nat \<Rightarrow> event list" where
  "polled env i = (case isCancel env of None \<Rightarrow> [] | Some c \<Rightarrow> [Poll (c i)])"

definition cancelled :: "run_env \<Rightarrow> nat \<Rightarrow> bool" where
  "cancelled env i = (case isCancel env of None \<Rightarrow> False | Some c \<Rightarrow> c i)"

text \<open>Lines 497-498: \<^verbatim>\<open>diag[1] = diag[0].value; diag[2] = Date.now() - startTime\<close>.\<close>

definition record_result :: "run_env \<Rightarrow> nat \<Rightarrow> producer \<Rightarrow> store \<Rightarrow> store" where
  "record_result env i p st =
     st\<lparr> lastResult := (lastResult st)(p := value_at env i p),
         lastCost := (lastCost st)(p := elapsed env i p) \<rparr>"

text \<open>Line 499: \<^verbatim>\<open>[...all, ...keep].map(diag => diag[1]).flat()\<close>.\<close>

definition merged :: "producer list \<Rightarrow> producer list \<Rightarrow> (producer \<Rightarrow> Diagnostic list) \<Rightarrow> Diagnostic list" where
  "merged all keep res = concat (map res (all @ keep))"

text \<open>
  Lines 494-501: the loop over \<^verbatim>\<open>all\<close>. \<open>i\<close> is the iteration, \<open>ps\<close> what is left
  of \<^verbatim>\<open>all\<close>.
\<close>

fun run_loop ::
  "run_env \<Rightarrow> producer list \<Rightarrow> producer list \<Rightarrow> nat \<Rightarrow> producer list \<Rightarrow> store
     \<Rightarrow> store \<times> event list"
where
  "run_loop env all keep i [] st = (st, [])"
| "run_loop env all keep i (p # ps) st =
     (if cancelled env i then (st, polled env i)
      else
        let st1 = record_result env i p st;
            results = merged all keep (lastResult st1);
            (st2, tr) = run_loop env all keep (Suc i) ps st1
        in (st2, polled env i
                 @ [Compute p (value_at env i p), Batch (dedupe env results)] @ tr))"

text \<open>Lines 455-502: one run.\<close>

definition run_schedule :: "run_env \<Rightarrow> store \<Rightarrow> producer list \<times> producer list" where
  "run_schedule env st =
     schedule (changed env) (withSideEffect env)
       (sort_key (lastCost st) (scriptTs st)) (sort_key (lastCost st) (templateTs st))"

definition getDiagnostics :: "run_env \<Rightarrow> store \<Rightarrow> store \<times> event list" where
  "getDiagnostics env st =
     (let tTs = sort_key (lastCost st) (templateTs st);
          sTs = sort_key (lastCost st) (scriptTs st);
          st0 = st\<lparr> templateTs := tTs, scriptTs := sTs \<rparr>;
          (all, keep) = schedule (changed env) (withSideEffect env) sTs tTs
      in run_loop env all keep 0 all st0)"

text \<open>
  The most recent result of every producer after a part of a run: the result it had
  before the run, overwritten by each of its computations.
\<close>

definition after_event :: "event \<Rightarrow> (producer \<Rightarrow> Diagnostic list) \<Rightarrow> producer \<Rightarrow> Diagnostic list" where
  "after_event e res = (case e of Compute p v \<Rightarrow> res(p := v) | Poll b \<Rightarrow> res | Batch b \<Rightarrow> res)"

definition recent :: "(producer \<Rightarrow> Diagnostic list) \<Rightarrow> event list \<Rightarrow> producer \<Rightarrow> Diagnostic list" where
  "recent res es = fold after_event es res"

fun computed_of :: "event list \<Rightarrow> producer list" where
  "computed_of [] = []"
| "computed_of (Compute p v # es) = p # computed_of es"
| "computed_of (Poll b # es) = computed_of es"
| "computed_of (Batch b # es) = computed_of es"

fun batches_of :: "event list \<Rightarrow> Diagnostic list list" where
  "batches_of [] = []"
| "batches_of (Batch b # es) = b # batches_of es"
| "batches_of (Poll b # es) = batches_of es"
| "batches_of (Compute p v # es) = batches_of es"

subsection \<open>Shape of a run\<close>

lemma polled_Some: "isCancel env = Some c \<Longrightarrow> polled env i = [Poll (c i)]"
  by (simp add: polled_def)

lemma cancelled_Some: "isCancel env = Some c \<Longrightarrow> cancelled env i = c i"
  by (simp add: cancelled_def)

lemma polled_cases: "polled env i = [] \<or> polled env i = [Poll (cancelled env i)]"
  by (simp add: polled_def cancelled_def split: option.splits)

lemma run_loop_Cons:
  "run_loop env all keep i (p # ps) st =
     (if cancelled env i then (st, polled env i)
      else (fst (run_loop env all keep (Suc i) ps (record_result env i p st)),
            polled env i @ Compute p (value_at env i p)
              # Batch (dedupe env (merged all keep (lastResult (record_result env i p st))))
              # snd (run_loop env all keep (Suc i) ps (record_result env i p st))))"
  by (simp add: Let_def split: prod.splits)

declare run_loop.simps(2) [simp del]

lemma recent_Nil [simp]: "recent res [] = res"
  by (simp add: recent_def)

lemma recent_Compute [simp]: "recent res (Compute p v # es) = recent (res(p := v)) es"
  by (simp add: recent_def after_event_def)

lemma recent_Poll [simp]: "recent res (Poll b # es) = recent res es"
  by (simp add: recent_def after_event_def)

lemma recent_Batch [simp]: "recent res (Batch b # es) = recent res es"
  by (simp add: recent_def after_event_def)

lemma recent_append: "recent res (es @ fs) = recent (recent res es) fs"
  by (simp add: recent_def)

lemma lastResult_record_result [simp]:
  "lastResult (record_result env i p st) = (lastResult st)(p := value_at env i p)"
  by (simp add: record_result_def)

lemma lastCost_record_result [simp]:
  "lastCost (record_result env i p st) = (lastCost st)(p := elapsed env i p)"
  by (simp add: record_result_def)

lemma order_record_result [simp]:
  "templateTs (record_result env i p st) = templateTs st"
  "scriptTs (record_result env i p st) = scriptTs st"
  by (simp_all add: record_result_def)

lemma recent_polled [simp]: "recent res (polled env i) = res"
  using polled_cases[of env i] by auto

lemma run_loop_compute_after_poll:
  assumes "isCancel env = Some c"
  shows "snd (run_loop env all keep i ps st) = pre @ Compute p v # post
           \<Longrightarrow> \<exists>pre'. pre = pre' @ [Poll False]"
proof (induction ps arbitrary: i st pre)
  case Nil
  then show ?case by simp
next
  case (Cons q qs)
  then show ?case
    using assms
    by (auto simp: run_loop_Cons polled_Some cancelled_Some Cons_eq_append_conv
             split: if_splits)
qed

lemma run_loop_poll_true_last:
  assumes "isCancel env = Some c"
  shows "snd (run_loop env all keep i ps st) = pre @ Poll True # post \<Longrightarrow> post = []"
proof (induction ps arbitrary: i st pre)
  case Nil
  then show ?case by simp
next
  case (Cons q qs)
  then show ?case
    using assms
    by (auto simp: run_loop_Cons polled_Some cancelled_Some Cons_eq_append_conv
             split: if_splits)
qed

lemma run_loop_compute_then_batch:
  "snd (run_loop env all keep i ps st) = pre @ Compute p v # post
     \<Longrightarrow> \<exists>post'. post = Batch (dedupe env (merged all keep (recent (lastResult st) (pre @ [Compute p v])))) # post'
           \<and> (\<forall>b post''. post' \<noteq> Batch b # post'')"
proof (induction ps arbitrary: i st pre)
  case Nil
  then show ?case by simp
next
  case (Cons q qs)
  show ?case
  proof (cases "cancelled env i")
    case True
    with Cons.prems polled_cases[of env i] show ?thesis
      by (auto simp: run_loop_Cons Cons_eq_append_conv append_eq_Cons_conv)
  next
    case False
    let ?st1 = "record_result env i q st"
    let ?b = "Batch (dedupe env (merged all keep (lastResult ?st1)))"
    let ?tr = "snd (run_loop env all keep (Suc i) qs ?st1)"
    from Cons.prems False
    have eq: "polled env i @ Compute q (value_at env i q) # ?b # ?tr = pre @ Compute p v # post"
      by (simp add: run_loop_Cons)
    have next_not_batch: "\<forall>b post''. ?tr \<noteq> Batch b # post''"
    proof (cases qs)
      case Nil
      then show ?thesis by simp
    next
      case (Cons r rs)
      then show ?thesis
        using polled_cases[of env "Suc i"]
        by (auto simp: run_loop_Cons)
    qed
    from eq polled_cases[of env i] False
    consider (here) "pre = polled env i" "p = q" "v = value_at env i q" "post = ?b # ?tr"
      | (later) pre2 where "pre = polled env i @ Compute q (value_at env i q) # ?b # pre2"
          "?tr = pre2 @ Compute p v # post"
      by (auto simp: Cons_eq_append_conv)
    then show ?thesis
    proof cases
      case here
      have "recent (lastResult st) (pre @ [Compute p v]) = lastResult ?st1"
        using here by (simp add: recent_append)
      with next_not_batch here show ?thesis
        by (simp add: fun_upd_def)
    next
      case later
      have "recent (lastResult st) (pre @ [Compute p v])
              = recent (lastResult ?st1) (pre2 @ [Compute p v])"
        using later(1) by (simp add: recent_append)
      with Cons.IH[OF later(2)] show ?thesis
        by (simp add: fun_upd_def)
    qed
  qed
qed

lemma run_loop_batch_after_compute:
  "snd (run_loop env all keep i ps st) = pre @ Batch b # post
     \<Longrightarrow> \<exists>pre' p v. pre = pre' @ [Compute p v]"
proof (induction ps arbitrary: i st pre)
  case Nil
  then show ?case by simp
next
  case (Cons q qs)
  show ?case
  proof (cases "cancelled env i")
    case True
    with Cons.prems polled_cases[of env i] show ?thesis
      by (auto simp: run_loop_Cons Cons_eq_append_conv append_eq_Cons_conv)
  next
    case False
    let ?st1 = "record_result env i q st"
    let ?b = "Batch (dedupe env (merged all keep (lastResult ?st1)))"
    let ?tr = "snd (run_loop env all keep (Suc i) qs ?st1)"
    from Cons.prems False
    have eq: "polled env i @ Compute q (value_at env i q) # ?b # ?tr = pre @ Batch b # post"
      by (simp add: run_loop_Cons)
    from eq polled_cases[of env i] False
    consider (here) "pre = polled env i @ [Compute q (value_at env i q)]"
      | (later) pre2 where "pre = polled env i @ Compute q (value_at env i q) # ?b # pre2"
          "?tr = pre2 @ Batch b # post"
      by (auto simp: Cons_eq_append_conv)
    then show ?thesis
    proof cases
      case here
      then show ?thesis by blast
    next
      case later
      from Cons.IH[OF later(2)] obtain pre' p v where "pre2 = pre' @ [Compute p v]" by blast
      with later(1) have
        "pre = (polled env i @ Compute q (value_at env i q) # ?b # pre') @ [Compute p v]"
        by simp
      then show ?thesis by blast
    qed
  qed
qed

lemma computed_of_polled [simp]: "computed_of (polled env i @ es) = computed_of es"
  using polled_cases[of env i] by auto

lemma batches_of_polled [simp]: "batches_of (polled env i @ es) = batches_of es"
  using polled_cases[of env i] by auto

lemma computed_of_polled_only [simp]: "computed_of (polled env i) = []"
  using polled_cases[of env i] by auto

lemma batches_of_polled_only [simp]: "batches_of (polled env i) = []"
  using polled_cases[of env i] by auto

text \<open>
  The producers a run computes are the first \<open>n\<close> of \<^verbatim>\<open>all\<close>, \<open>n\<close> counting the
  iterations before the first one whose poll resolves true.
\<close>

lemma run_loop_computed:
  "computed_of (snd (run_loop env all keep i ps st))
     = take (length (takeWhile (\<lambda>j. \<not> cancelled env j) [i..<i + length ps])) ps"
proof (induction ps arbitrary: i st)
  case Nil
  then show ?case by simp
next
  case (Cons q qs)
  have upt: "[i..<i + length (q # qs)] = i # [Suc i..<Suc i + length qs]"
    using upt_conv_Cons[of i "i + length (q # qs)"] by simp
  show ?case
    unfolding upt using Cons.IH[of "Suc i"]
    by (simp add: run_loop_Cons)
qed

lemma run_loop_batches_length:
  "length (batches_of (snd (run_loop env all keep i ps st)))
     = length (computed_of (snd (run_loop env all keep i ps st)))"
  by (induction ps arbitrary: i st) (simp_all add: run_loop_Cons)

lemma run_loop_store:
  "lastResult (fst (run_loop env all keep i ps st))
      = recent (lastResult st) (snd (run_loop env all keep i ps st))
   \<and> templateTs (fst (run_loop env all keep i ps st)) = templateTs st
   \<and> scriptTs (fst (run_loop env all keep i ps st)) = scriptTs st"
proof (induction ps arbitrary: i st)
  case Nil
  then show ?case by simp
next
  case (Cons q qs)
  show ?case
  proof (cases "cancelled env i")
    case True
    then show ?thesis by (simp add: run_loop_Cons)
  next
    case False
    have "recent (lastResult st) (polled env i @ Compute q (value_at env i q) # es)
            = recent (lastResult (record_result env i q st)) es" for es
      by (simp add: recent_append)
    with False Cons.IH[of "Suc i" "record_result env i q st"] show ?thesis
      by (simp add: run_loop_Cons fun_upd_def)
  qed
qed


lemma getDiagnostics_run_loop:
  "getDiagnostics env st =
     run_loop env (fst (run_schedule env st)) (snd (run_schedule env st)) 0
       (fst (run_schedule env st))
       (st\<lparr> templateTs := sort_key (lastCost st) (templateTs st),
            scriptTs := sort_key (lastCost st) (scriptTs st) \<rparr>)"
  by (simp add: getDiagnostics_def run_schedule_def Let_def split: prod.splits)

subsection \<open>Cancellation of a run\<close>

text \<open>An example run: the callback resolves false once and then true.\<close>

definition example_diag :: Diagnostic where
  "example_diag =
     \<lparr> range_d = \<lparr> start = \<lparr> line = 1, character = 0 \<rparr>, endp = \<lparr> line = 1, character = 4 \<rparr> \<rparr>,
       message = ''unknown property'', severity = Some 1, code = None,
       source = Some ''css'', tags = None \<rparr>"

definition example_env :: run_env where
  "example_env =
     \<lparr> isCancel = Some (\<lambda>i. 1 \<le> i),
       withSideEffect = True,
       changed = \<lparr> template = False, script = True, scriptSetup = False \<rparr>,
       value_at = (\<lambda>i p. if p = StylesValidation then [example_diag] else []),
       elapsed = (\<lambda>i p. 3),
       dedupe = (\<lambda>ds. ds) \<rparr>"

text \<open>
  C1. With a callback \<open>c\<close>, whatever it answers: every computation of a producer is
  immediately preceded by a poll that resolved false (so the callback is polled before
  each producer executes); a poll that resolves true is the last event of the run (no
  producer is computed and no batch is delivered after it); and the producers computed
  are exactly those of \<^verbatim>\<open>all\<close> that come before the first iteration whose poll
  resolves true, each with one batch.
\<close>

theorem cancel_stops_run:
  assumes "isCancel env = Some c"
  shows "(\<forall>pre p v post. snd (getDiagnostics env st) = pre @ Compute p v # post
            \<longrightarrow> (\<exists>pre'. pre = pre' @ [Poll False]))
       \<and> (\<forall>pre post. snd (getDiagnostics env st) = pre @ Poll True # post \<longrightarrow> post = [])
       \<and> computed_of (snd (getDiagnostics env st))
           = take (length (takeWhile (\<lambda>j. \<not> c j) [0..<length (fst (run_schedule env st))]))
               (fst (run_schedule env st))
       \<and> length (batches_of (snd (getDiagnostics env st)))
           = length (computed_of (snd (getDiagnostics env st)))"
proof -
  have c: "cancelled env = c"
    using assms by (simp add: cancelled_def fun_eq_iff)
  show ?thesis
    unfolding getDiagnostics_run_loop
    using run_loop_compute_after_poll[OF assms] run_loop_poll_true_last[OF assms]
    by (simp add: run_loop_computed run_loop_batches_length c)
qed

lemma example_run:
  "snd (getDiagnostics example_env initial_store)
     = [Poll False, Compute StylesValidation [example_diag], Batch [example_diag], Poll True]"
  by (simp add: getDiagnostics_run_loop run_schedule_def schedule_def example_env_def
      initial_store_def nonTs_def run_loop_Cons cancelled_def polled_def record_result_def
      merged_def)

theorem cancel_stops_run_witness:
  "isCancel example_env = Some (\<lambda>i. 1 \<le> i)
   \<and> snd (getDiagnostics example_env initial_store)
       = [Poll False] @ Compute StylesValidation [example_diag] # [Batch [example_diag], Poll True]
   \<and> (\<exists>pre'. [Poll False] = pre' @ [Poll False])
   \<and> snd (getDiagnostics example_env initial_store)
       = [Poll False, Compute StylesValidation [example_diag], Batch [example_diag]] @ Poll True # []
   \<and> computed_of (snd (getDiagnostics example_env initial_store)) = [StylesValidation]
   \<and> length (batches_of (snd (getDiagnostics example_env initial_store))) = 1"
proof -
  have h: "isCancel example_env = Some (\<lambda>i. 1 \<le> i)"
    by (simp add: example_env_def)
  from cancel_stops_run[OF h, of initial_store] show ?thesis
    using h by (simp add: example_run)
qed

subsection \<open>Scheduling of a run\<close>

text \<open>
  The two families keep their members: \<^verbatim>\<open>sort\<close> only reorders \<^verbatim>\<open>templateTs\<close> and
  \<^verbatim>\<open>scriptTs\<close>. This holds of the arrays as \<^verbatim>\<open>useDiagnostics\<close> builds them and after
  every run.
\<close>

definition wf_store :: "store \<Rightarrow> bool" where
  "wf_store st \<longleftrightarrow>
     distinct (templateTs st)
     \<and> set (templateTs st)
         = {TemplateScriptValidation1, TemplateScriptValidation2, TemplateScriptValidation3}
     \<and> distinct (scriptTs st)
     \<and> set (scriptTs st)
         = {ScriptValidation1, ScriptValidation2, ScriptValidation3, ScriptValidationUnused}"




lemma wf_initial_store: "wf_store initial_store"
  by (simp add: wf_store_def initial_store_def)

lemma wf_store_getDiagnostics: "wf_store st \<Longrightarrow> wf_store (fst (getDiagnostics env st))"
  using run_loop_store[of env "fst (run_schedule env st)" "snd (run_schedule env st)" 0
      "fst (run_schedule env st)"
      "st\<lparr> templateTs := sort_key (lastCost st) (templateTs st),
           scriptTs := sort_key (lastCost st) (scriptTs st) \<rparr>"]
  by (simp add: getDiagnostics_run_loop wf_store_def)

lemma run_schedule_cases:
  "run_schedule env st =
     (let sTs = sort_key (lastCost st) (scriptTs st);
          tTs = sort_key (lastCost st) (templateTs st)
      in if script (changed env) \<or> scriptSetup (changed env) then
           (if withSideEffect env then (nonTs @ sTs @ tTs, []) else (nonTs @ sTs, tTs))
         else if template (changed env) then
           (if withSideEffect env then (nonTs @ tTs @ sTs, []) else (nonTs @ tTs, sTs))
         else
           (if withSideEffect env then (nonTs @ sTs @ tTs, []) else (nonTs, sTs @ tTs)))"
  by (simp add: run_schedule_def schedule_def Let_def)

lemma run_schedule_distinct:
  assumes "wf_store st"
  shows "distinct (fst (run_schedule env st) @ snd (run_schedule env st))"
  using assms
  by (auto simp: run_schedule_cases wf_store_def nonTs_def Let_def)

lemma run_schedule_all_producers:
  assumes "wf_store st"
  shows "set (fst (run_schedule env st) @ snd (run_schedule env st)) = UNIV"
proof -
  have "p \<in> set (fst (run_schedule env st) @ snd (run_schedule env st))" for p
    using assms
    by (cases p) (auto simp: run_schedule_cases wf_store_def nonTs_def Let_def)
  then show ?thesis by blast
qed




lemma set_merged: "set (merged all keep res) = (\<Union>p \<in> set (all @ keep). set (res p))"
  by (auto simp: merged_def)






subsection \<open>Batches\<close>

text \<open>
  Modelled from the spec: \<^verbatim>\<open>dedupe.withDiagnostics\<close> of \<^verbatim>\<open>utils/dedupe\<close>, which the
  run calls on the merged results and whose file is not among the sources. The spec:
  diagnostics with an identical range, message and severity triple are collapsed to one
  entry. The model keeps the first diagnostic of each triple, in the order of the input.
\<close>

definition dedupe_key :: "Diagnostic \<Rightarrow> Range \<times> string \<times> nat option" where
  "dedupe_key d = (range_d d, message d, severity d)"

primrec dedupe_from :: "(Range \<times> string \<times> nat option) list \<Rightarrow> Diagnostic list \<Rightarrow> Diagnostic list" where
  "dedupe_from seen [] = []"
| "dedupe_from seen (d # ds) =
     (if dedupe_key d \<in> set seen then dedupe_from seen ds
      else d # dedupe_from (dedupe_key d # seen) ds)"

definition withDiagnostics :: "Diagnostic list \<Rightarrow> Diagnostic list" where
  "withDiagnostics ds = dedupe_from [] ds"

lemma dedupe_from_keys:
  "dedupe_key ` set (dedupe_from seen ds) = dedupe_key ` set ds - set seen"
  by (induction ds arbitrary: seen) auto

lemma dedupe_from_distinct: "distinct (map dedupe_key (dedupe_from seen ds))"
proof (induction ds arbitrary: seen)
  case Nil
  then show ?case by simp
next
  case (Cons d ds)
  have "dedupe_key d \<notin> dedupe_key ` set (dedupe_from (dedupe_key d # seen) ds)"
    by (simp add: dedupe_from_keys)
  with Cons show ?case by simp
qed

lemma dedupe_from_subseq: "subseq (dedupe_from seen ds) ds"
  by (induction ds arbitrary: seen) auto

text \<open>
  A third example: the styles producer reports a diagnostic that the first script pass
  reported in an earlier run, with another source; the callback cancels the third
  iteration.
\<close>

definition example_env_dup :: run_env where
  "example_env_dup =
     \<lparr> isCancel = Some (\<lambda>i. 2 \<le> i),
       withSideEffect = True,
       changed = \<lparr> template = False, script = False, scriptSetup = False \<rparr>,
       value_at = (\<lambda>i p. if p = StylesValidation then [example_diag] else []),
       elapsed = (\<lambda>i p. 1),
       dedupe = withDiagnostics \<rparr>"

definition example_store_dup :: store where
  "example_store_dup =
     initial_store\<lparr> lastResult :=
       (\<lambda>p. if p = ScriptValidation1 then [example_diag\<lparr> source := Some ''ts'' \<rparr>] else []) \<rparr>"

text \<open>
  C4. In a run whose \<^verbatim>\<open>dedupe.withDiagnostics\<close> is the function above: every computation
  of a producer is immediately followed by exactly one batch (one \<^verbatim>\<open>response\<close> call,
  and the event after it is not a batch), and every batch immediately follows a
  computation; the batch is \<^verbatim>\<open>withDiagnostics\<close> of the concatenation, over \<^verbatim>\<open>all\<close> and
  then \<^verbatim>\<open>keep\<close>, of each producer's most recent result (its result before the run,
  unless the run has computed it since); \<^verbatim>\<open>all\<close> and \<^verbatim>\<open>keep\<close> together hold each of
  the ten producers once, so the concatenation has the results of all of them, held ones
  included; and \<^verbatim>\<open>withDiagnostics\<close> returns a subsequence of its input with the same
  (range, message, severity) triples, each triple once.
\<close>

theorem batch_after_each_producer:
  assumes "dedupe env = withDiagnostics" and "wf_store st"
  shows "(\<forall>pre p v post. snd (getDiagnostics env st) = pre @ Compute p v # post \<longrightarrow>
            (\<exists>post'. post = Batch (withDiagnostics
                          (merged (fst (run_schedule env st)) (snd (run_schedule env st))
                             (recent (lastResult st) (pre @ [Compute p v])))) # post'
                   \<and> (\<forall>b post''. post' \<noteq> Batch b # post'')))
       \<and> (\<forall>pre b post. snd (getDiagnostics env st) = pre @ Batch b # post \<longrightarrow>
            (\<exists>pre' p v. pre = pre' @ [Compute p v]))
       \<and> distinct (fst (run_schedule env st) @ snd (run_schedule env st))
       \<and> set (fst (run_schedule env st) @ snd (run_schedule env st)) = UNIV
       \<and> (\<forall>res. set (merged (fst (run_schedule env st)) (snd (run_schedule env st)) res)
                  = (\<Union>p. set (res p)))
       \<and> (\<forall>ds. distinct (map dedupe_key (withDiagnostics ds))
                \<and> dedupe_key ` set (withDiagnostics ds) = dedupe_key ` set ds
                \<and> subseq (withDiagnostics ds) ds)"
proof -
  let ?all = "fst (run_schedule env st)" and ?keep = "snd (run_schedule env st)"
  let ?st0 = "st\<lparr> templateTs := sort_key (lastCost st) (templateTs st),
                   scriptTs := sort_key (lastCost st) (scriptTs st) \<rparr>"
  have 1: "\<forall>pre p v post. snd (getDiagnostics env st) = pre @ Compute p v # post \<longrightarrow>
            (\<exists>post'. post = Batch (withDiagnostics
                          (merged ?all ?keep (recent (lastResult st) (pre @ [Compute p v])))) # post'
                   \<and> (\<forall>b post''. post' \<noteq> Batch b # post''))"
    using run_loop_compute_then_batch[of env ?all ?keep 0 ?all ?st0] assms(1)
    by (simp add: getDiagnostics_run_loop)
  have 2: "\<forall>pre b post. snd (getDiagnostics env st) = pre @ Batch b # post \<longrightarrow>
            (\<exists>pre' p v. pre = pre' @ [Compute p v])"
    using run_loop_batch_after_compute[of env ?all ?keep 0 ?all ?st0]
    by (simp add: getDiagnostics_run_loop)
  note 3 = run_schedule_distinct[OF assms(2), of env]
  note 4 = run_schedule_all_producers[OF assms(2), of env]
  have 5: "\<forall>res. set (merged ?all ?keep res) = (\<Union>p. set (res p))"
    unfolding set_merged 4 by simp
  have 6: "\<forall>ds. distinct (map dedupe_key (withDiagnostics ds))
                \<and> dedupe_key ` set (withDiagnostics ds) = dedupe_key ` set ds
                \<and> subseq (withDiagnostics ds) ds"
    by (simp add: withDiagnostics_def dedupe_from_keys dedupe_from_distinct dedupe_from_subseq)
  from 1 2 3 4 5 6 show ?thesis by blast
qed

lemma example_dup_schedule:
  "run_schedule example_env_dup example_store_dup
     = ([StylesValidation, TemplateValidation, ScriptExistValidation,
         ScriptValidation1, ScriptValidation2, ScriptValidation3, ScriptValidationUnused,
         TemplateScriptValidation1, TemplateScriptValidation2, TemplateScriptValidation3], [])"
  by (simp add: run_schedule_def schedule_def example_env_dup_def example_store_dup_def
      initial_store_def nonTs_def)

lemma example_dup_dedupe:
  "withDiagnostics [example_diag, example_diag\<lparr> source := Some ''ts'' \<rparr>] = [example_diag]"
  by (simp add: withDiagnostics_def dedupe_key_def example_diag_def)

lemma example_dup_run:
  "snd (getDiagnostics example_env_dup example_store_dup)
     = [Poll False, Compute StylesValidation [example_diag], Batch [example_diag],
        Poll False, Compute TemplateValidation [], Batch [example_diag],
        Poll True]"
  unfolding getDiagnostics_run_loop example_dup_schedule
  by (simp add: example_env_dup_def example_store_dup_def
      initial_store_def run_loop_Cons cancelled_def polled_def merged_def example_dup_dedupe)

theorem batch_after_each_producer_witness:
  "dedupe example_env_dup = withDiagnostics
   \<and> wf_store example_store_dup
   \<and> snd (getDiagnostics example_env_dup example_store_dup)
       = [Poll False] @ Compute StylesValidation [example_diag]
           # [Batch [example_diag], Poll False, Compute TemplateValidation [],
              Batch [example_diag], Poll True]
   \<and> merged (fst (run_schedule example_env_dup example_store_dup))
        (snd (run_schedule example_env_dup example_store_dup))
        (recent (lastResult example_store_dup)
           ([Poll False] @ [Compute StylesValidation [example_diag]]))
       = [example_diag, example_diag\<lparr> source := Some ''ts'' \<rparr>]
   \<and> withDiagnostics [example_diag, example_diag\<lparr> source := Some ''ts'' \<rparr>] = [example_diag]
   \<and> (\<exists>post'. [Batch [example_diag], Poll False, Compute TemplateValidation [],
                Batch [example_diag], Poll True] = Batch [example_diag] # post'
              \<and> (\<forall>b post''. post' \<noteq> Batch b # post''))"
proof -
  have d: "dedupe example_env_dup = withDiagnostics"
    by (simp add: example_env_dup_def)
  have wf: "wf_store example_store_dup"
    by (simp add: wf_store_def example_store_dup_def initial_store_def)
  have m: "merged (fst (run_schedule example_env_dup example_store_dup))
        (snd (run_schedule example_env_dup example_store_dup))
        (recent (lastResult example_store_dup)
           ([Poll False] @ [Compute StylesValidation [example_diag]]))
       = [example_diag, example_diag\<lparr> source := Some ''ts'' \<rparr>]"
    unfolding example_dup_schedule
    by (simp add: merged_def example_store_dup_def)
  from batch_after_each_producer[OF d wf] d wf m show ?thesis
    by (simp add: example_dup_run example_dup_dedupe)
qed

section \<open>Remapping diagnostics to the source (sourceFile.ts, lines 777-833)\<close>

text \<open>
  The class \<^verbatim>\<open>SourceMap\<close> is in \<^verbatim>\<open>utils/sourceMaps\<close>, not among the sources, so a source
  map is what the two functions read of it: the uri of its mapped document and its method
  \<^verbatim>\<open>getSourceRange(start, end?)\<close>, which answers with a mapped segment (a range and the
  segment's data) or with undefined. \<^verbatim>\<open>TsSourceMap\<close> is a source map whose data has the
  capabilities.
\<close>

record Capabilities =
  basic :: bool
  diagnostic :: bool

record TsMappingData =
  capabilities :: Capabilities

record 'd MappedRange =
  mapped_range :: Range
  data :: 'd

record 'd SourceMap =
  mappedDocument_uri :: string
  getSourceRange :: "Position \<Rightarrow> Position option \<Rightarrow> 'd MappedRange option"









subsection \<open>Examples of source maps\<close>







subsection \<open>What is emitted and what is dropped\<close>












section \<open>The producers (sourceFile.ts, lines 431-453 and 504-776)\<close>

subsection \<open>What the producers read\<close>

text \<open>
  A \<^verbatim>\<open>TextDocument\<close> of vscode-languageserver-textdocument, by the members the
  producers use; \<^verbatim>\<open>getText_range\<close> is \<^verbatim>\<open>getText(range)\<close>.
\<close>

record TextDocument =
  uri :: string
  languageId :: string
  version :: nat
  getText :: string
  getText_range :: "Range \<Rightarrow> string"
  positionAt :: "nat \<Rightarrow> Position"

text \<open>
  The sections of \<^verbatim>\<open>IDescriptor\<close> (declared in \<^verbatim>\<open>types\<close>), with the fields that \<^verbatim>\<open>update\<close>
  writes (lines 251-384; \<^verbatim>\<open>loc\<close> is a pair of offsets).
\<close>

record Block =
  lang :: string
  content :: string
  loc_start :: nat
  loc_end :: nat
  ignore :: bool

record ScriptBlock = Block +
  src :: "string option"

record StyleBlock = Block +
  module :: bool
  scoped :: bool

record CustomBlock = Block +
  type :: string

record IDescriptor =
  d_template :: "Block option"
  d_script :: "ScriptBlock option"
  d_scriptSetup :: "Block option"
  d_styles :: "StyleBlock list"
  d_customBlocks :: "CustomBlock list"

text \<open>
  The script engine (\<^verbatim>\<open>tsLanguageService\<close>) and the style engines, by the calls the
  producers make. \<^verbatim>\<open>css_service languageId\<close> is \<^verbatim>\<open>getCssLanguageService(languageId)\<close>,
  undefined for a language without a service, else its \<^verbatim>\<open>doValidation\<close>.
\<close>

datatype ValidationOptions = Semantic | Syntactic | Suggestion

datatype Stylesheet = Stylesheet string

record LocationLink =
  targetUri :: string
  targetSelectionRange :: Range

record services =
  doValidation :: "string \<Rightarrow> ValidationOptions \<Rightarrow> Diagnostic list"
  findDefinition :: "string \<Rightarrow> Position \<Rightarrow> LocationLink list"
  getTextDocument2 :: "string \<Rightarrow> bool"
  anyNoUnusedEnabled :: bool
  css_service :: "string \<Rightarrow> (TextDocument \<Rightarrow> Stylesheet \<Rightarrow> Diagnostic list) option"

text \<open>
  The teleport map of the template script, by its method \<^verbatim>\<open>getMappedRanges(start, end)\<close>.
\<close>

record TeleportMappingData =
  isAdditionalReference :: bool

record TeleportSourceMap =
  getMappedRanges :: "Position \<Rightarrow> Position \<Rightarrow> TeleportMappingData MappedRange list"

record StyleDocument =
  sd_textDocument :: TextDocument
  sd_stylesheet :: "Stylesheet option"
  sd_ignore :: "bool option"

text \<open>
  The state of a source file that the producers read: the values of the refs and computed
  refs of \<^verbatim>\<open>createSourceFile\<close> and of the generators (\<^verbatim>\<open>virtuals/*\<close>, not among the
  sources). \<^verbatim>\<open>htmlErrors\<close> and \<^verbatim>\<open>pugErrors\<close> are the values of the two computed refs of
  \<^verbatim>\<open>useTemplateValidation\<close> (lines 505-575), which come from the template compiler.
\<close>

record source_file =
  vueDoc :: TextDocument
  descriptor :: IDescriptor
  setupReturns :: "string list"
  virtualTemplateGen_textDocument :: "TextDocument option"
  virtualTemplateGen_teleportSourceMap :: "TeleportSourceMap option"
  virtualScriptGen_textDocument :: "TextDocument option"
  virtualScriptGen_textDocumentForSuggestion :: "TextDocument option"
  tsSourceMaps :: "TsMappingData SourceMap list"
  virtualTemplateRaw_textDocument :: "TextDocument option"
  virtualTemplateRaw_htmlSourceMap :: "unit SourceMap option"
  virtualTemplateRaw_pugSourceMap :: "unit SourceMap option"
  htmlErrors :: "Diagnostic list"
  pugErrors :: "Diagnostic list"
  virtualStyles_textDocuments :: "StyleDocument list"
  virtualStyles_sourceMaps :: "unit SourceMap list"





text \<open>The options of \<^verbatim>\<open>doValidation\<close> for a mode (lines 697-705 and 726-734).\<close>

definition mode_options :: "nat \<Rightarrow> ValidationOptions" where
  "mode_options mode = (if mode = 1 then Semantic else if mode = 2 then Syntactic else Suggestion)"

subsection \<open>\<^verbatim>\<open>useTemplateScriptValidation\<close> (lines 719-776)\<close>

definition errors_1 :: "services \<Rightarrow> source_file \<Rightarrow> nat \<Rightarrow> Diagnostic list" where
  "errors_1 sv sf mode =
     (case virtualTemplateGen_textDocument sf of
        None \<Rightarrow> []
      | Some doc \<Rightarrow> doValidation sv (uri doc) (mode_options mode))"





text \<open>An example: the template script reports the setup-returned name \<^verbatim>\<open>msg\<close> as unused.\<close>

definition example_position_at :: "nat \<Rightarrow> Position" where
  "example_position_at n = \<lparr> line = 0, character = n \<rparr>"










lemma errors_1_teleport [simp]:
  "errors_1 sv (sf\<lparr> virtualTemplateGen_teleportSourceMap := m \<rparr>) mode = errors_1 sv sf mode"
  by (simp add: errors_1_def)







subsection \<open>The other producers\<close>
































section \<open>Updating a source file (sourceFile.ts, lines 192-385)\<close>

subsection \<open>What the parsers return\<close>

text \<open>
  A block of \<^verbatim>\<open>vueSfc.parse(...).descriptor\<close>, by the fields \<^verbatim>\<open>update\<close> reads. An attribute
  is a string or \<^verbatim>\<open>true\<close>; \<^verbatim>\<open>module\<close> is a string, a boolean or undefined.
\<close>

datatype AttrValue = AttrTrue | AttrString string

record SFCBlock =
  sfc_type :: string
  sfc_content :: string
  sfc_loc_start_offset :: nat
  sfc_loc_end_offset :: nat
  sfc_attrs :: "string \<Rightarrow> AttrValue option"
  sfc_lang :: "string option"
  sfc_src :: "string option"
  sfc_module :: "AttrValue option"
  sfc_scoped :: "bool option"

record SFCDescriptor =
  sfc_template :: "SFCBlock option"
  sfc_script :: "SFCBlock option"
  sfc_scriptSetup :: "SFCBlock option"
  sfc_styles :: "SFCBlock list"
  sfc_customBlocks :: "SFCBlock list"

text \<open>A child node of \<^verbatim>\<open>htmlparser2.parseDocument(...)\<close>.\<close>

datatype ElementType = Root | Text | Directive | Comment | Script | Style | Tag | CDATA | Doctype

record Node =
  node_type :: ElementType
  startIndex :: "nat option"
  endIndex :: "nat option"

subsection \<open>Strings\<close>

text \<open>
  \<^verbatim>\<open>String.prototype.substring\<close> on two indices that are natural numbers: both are
  clamped to the length and swapped when the first is the greater. A string is the list of
  its code units.
\<close>

definition substring :: "string \<Rightarrow> nat \<Rightarrow> nat \<Rightarrow> string" where
  "substring s a b =
     (let a' = min a (length s); b' = min b (length s);
          lo = min a' b'; hi = max a' b'
      in take (hi - lo) (drop lo s))"

text \<open>\<^verbatim>\<open>String.prototype.indexOf\<close>: the first index where the pattern occurs, or -1.\<close>

fun indexOf_from :: "string \<Rightarrow> string \<Rightarrow> int \<Rightarrow> int" where
  "indexOf_from pat [] i = (if pat = [] then i else - 1)"
| "indexOf_from pat (c # cs) i = (if prefix pat (c # cs) then i else indexOf_from pat cs (i + 1))"

definition indexOf :: "string \<Rightarrow> string \<Rightarrow> int" where
  "indexOf s pat = indexOf_from pat s 0"

text \<open>\<^verbatim>\<open>!!v\<close> on an attribute or on \<^verbatim>\<open>module\<close>: a non-empty string or \<^verbatim>\<open>true\<close>.\<close>

definition truthy_attr :: "AttrValue option \<Rightarrow> bool" where
  "truthy_attr v = (case v of None \<Rightarrow> False | Some AttrTrue \<Rightarrow> True | Some (AttrString x) \<Rightarrow> x \<noteq> [])"

subsection \<open>The ignore marker (lines 199-228)\<close>

text \<open>
  Lines 199-205: \<^verbatim>\<open>blocks\<close>, the blocks of the new descriptor that are present. The array
  holds references to the descriptor's own blocks, so writing to an element writes to the
  descriptor: \<^verbatim>\<open>with_blocks\<close> puts a changed array back.
\<close>

definition option_list :: "'a option \<Rightarrow> 'a list" where
  "option_list x = (case x of None \<Rightarrow> [] | Some v \<Rightarrow> [v])"

definition blocks_of :: "SFCDescriptor \<Rightarrow> SFCBlock list" where
  "blocks_of nd =
     option_list (sfc_template nd) @ option_list (sfc_script nd) @ option_list (sfc_scriptSetup nd)
     @ sfc_styles nd @ sfc_customBlocks nd"

definition take_slot :: "'a option \<Rightarrow> 'a list \<Rightarrow> 'a option \<times> 'a list" where
  "take_slot old bs =
     (case old of
        None \<Rightarrow> (None, bs)
      | Some v \<Rightarrow> (case bs of [] \<Rightarrow> (Some v, []) | b # rest \<Rightarrow> (Some b, rest)))"

definition with_blocks :: "SFCDescriptor \<Rightarrow> SFCBlock list \<Rightarrow> SFCDescriptor" where
  "with_blocks nd bs =
     (let (t, r1) = take_slot (sfc_template nd) bs;
          (s, r2) = take_slot (sfc_script nd) r1;
          (ss, r3) = take_slot (sfc_scriptSetup nd) r2
      in \<lparr> sfc_template = t, sfc_script = s, sfc_scriptSetup = ss,
           sfc_styles = take (length (sfc_styles nd)) r3,
           sfc_customBlocks = drop (length (sfc_styles nd)) r3 \<rparr>)"

text \<open>Lines 212-218: the node is a comment with both indices and its text has the marker.\<close>

definition is_ignore_comment :: "string \<Rightarrow> Node \<Rightarrow> bool" where
  "is_ignore_comment docText node =
     (node_type node = Comment
      \<and> (case (startIndex node, endIndex node) of
           (Some si, Some ei) \<Rightarrow> indexOf (substring docText si (ei + 1)) ''@vue-ignore'' \<ge> 0
         | _ \<Rightarrow> False))"

text \<open>
  Lines 219-221: \<^verbatim>\<open>afterBlocks\<close>, as the positions in \<^verbatim>\<open>blocks\<close> of its elements. The
  sort of an array is stable.
\<close>

definition afterBlocks :: "SFCBlock list \<Rightarrow> nat \<Rightarrow> nat list" where
  "afterBlocks blocks si =
     sort_key (\<lambda>i. sfc_loc_start_offset (blocks ! i))
       (filter (\<lambda>i. sfc_loc_start_offset (blocks ! i) > si) [0..<length blocks])"

text \<open>Line 224: \<^verbatim>\<open>afterBlocks[0].attrs['__VLS_ignore'] = true\<close>.\<close>

definition set_ignore :: "SFCBlock \<Rightarrow> SFCBlock" where
  "set_ignore b = b\<lparr> sfc_attrs := (sfc_attrs b)(''__VLS_ignore'' \<mapsto> AttrTrue) \<rparr>"

text \<open>Lines 212-227: the body of the loop, for one node.\<close>

definition ignore_step :: "string \<Rightarrow> SFCBlock list \<Rightarrow> Node \<Rightarrow> SFCBlock list" where
  "ignore_step docText blocks node =
     (if node_type node = Comment then
        (case (startIndex node, endIndex node) of
           (Some si, Some ei) \<Rightarrow>
             let text = substring docText si (ei + 1) in
             if indexOf text ''@vue-ignore'' \<ge> 0 then
               (case afterBlocks blocks si of
                  [] \<Rightarrow> blocks
                | j # _ \<Rightarrow> blocks[j := set_ignore (blocks ! j)])
             else blocks
         | _ \<Rightarrow> blocks)
      else blocks)"

text \<open>Lines 211-228: the loop over the child nodes.\<close>

definition mark_ignored :: "string \<Rightarrow> Node list \<Rightarrow> SFCBlock list \<Rightarrow> SFCBlock list" where
  "mark_ignored docText childNodes blocks = foldl (ignore_step docText) blocks childNodes"

subsection \<open>The sections (lines 251-384)\<close>

text \<open>\<^verbatim>\<open>a ?? b\<close> on an optional string.\<close>

definition or_default :: "string option \<Rightarrow> string \<Rightarrow> string" where
  "or_default a b = (case a of None \<Rightarrow> b | Some v \<Rightarrow> v)"

text \<open>The \<^verbatim>\<open>newData\<close> of each of the five functions.\<close>

definition newData_template :: "SFCBlock \<Rightarrow> Block" where
  "newData_template b =
     \<lparr> lang = or_default (sfc_lang b) ''html'', content = sfc_content b,
       loc_start = sfc_loc_start_offset b, loc_end = sfc_loc_end_offset b,
       ignore = truthy_attr (sfc_attrs b ''__VLS_ignore'') \<rparr>"

definition newData_script :: "SFCBlock \<Rightarrow> ScriptBlock" where
  "newData_script b =
     \<lparr> lang = or_default (sfc_lang b) ''js'', content = sfc_content b,
       loc_start = sfc_loc_start_offset b, loc_end = sfc_loc_end_offset b,
       ignore = truthy_attr (sfc_attrs b ''__VLS_ignore''), src = sfc_src b \<rparr>"

definition newData_scriptSetup :: "SFCBlock \<Rightarrow> Block" where
  "newData_scriptSetup b =
     \<lparr> lang = or_default (sfc_lang b) ''js'', content = sfc_content b,
       loc_start = sfc_loc_start_offset b, loc_end = sfc_loc_end_offset b,
       ignore = truthy_attr (sfc_attrs b ''__VLS_ignore'') \<rparr>"

definition newData_style :: "SFCBlock \<Rightarrow> StyleBlock" where
  "newData_style b =
     \<lparr> lang = or_default (sfc_lang b) ''css'', content = sfc_content b,
       loc_start = sfc_loc_start_offset b, loc_end = sfc_loc_end_offset b,
       ignore = truthy_attr (sfc_attrs b ''__VLS_ignore''),
       module = truthy_attr (sfc_module b), scoped = (sfc_scoped b = Some True) \<rparr>"

definition newData_customBlock :: "SFCBlock \<Rightarrow> CustomBlock" where
  "newData_customBlock b =
     \<lparr> lang = or_default (sfc_lang b) [], content = sfc_content b,
       loc_start = sfc_loc_start_offset b, loc_end = sfc_loc_end_offset b,
       ignore = truthy_attr (sfc_attrs b ''__VLS_ignore''), type = sfc_type b \<rparr>"

text \<open>
  Lines 264-273, 289-299 and 314-323: an existing section is overwritten field by field,
  else the slot takes \<^verbatim>\<open>newData\<close> (which may be null).
\<close>

definition assign_template :: "Block option \<Rightarrow> Block option \<Rightarrow> Block option" where
  "assign_template old newData =
     (case (old, newData) of
        (Some d, Some n) \<Rightarrow>
          Some (d\<lparr> lang := lang n, content := content n, loc_start := loc_start n,
                   loc_end := loc_end n, ignore := ignore n \<rparr>)
      | _ \<Rightarrow> newData)"

definition assign_script :: "ScriptBlock option \<Rightarrow> ScriptBlock option \<Rightarrow> ScriptBlock option" where
  "assign_script old newData =
     (case (old, newData) of
        (Some d, Some n) \<Rightarrow>
          Some (d\<lparr> src := src n, lang := lang n, content := content n, loc_start := loc_start n,
                   loc_end := loc_end n, ignore := ignore n \<rparr>)
      | _ \<Rightarrow> newData)"

text \<open>
  Lines 326-354 and 357-383: the slots of an array are overwritten in place, the missing
  ones pushed, the surplus popped.
\<close>

fun assign_styles :: "StyleBlock list \<Rightarrow> StyleBlock list \<Rightarrow> StyleBlock list" where
  "assign_styles old [] = []"
| "assign_styles [] (n # ns) = n # assign_styles [] ns"
| "assign_styles (d # ds) (n # ns) =
     d\<lparr> lang := lang n, content := content n, loc_start := loc_start n, loc_end := loc_end n,
        ignore := ignore n, module := module n, scoped := scoped n \<rparr> # assign_styles ds ns"

fun assign_customBlocks :: "CustomBlock list \<Rightarrow> CustomBlock list \<Rightarrow> CustomBlock list" where
  "assign_customBlocks old [] = []"
| "assign_customBlocks [] (n # ns) = n # assign_customBlocks [] ns"
| "assign_customBlocks (d # ds) (n # ns) =
     d\<lparr> type := type n, lang := lang n, content := content n, loc_start := loc_start n,
        loc_end := loc_end n, ignore := ignore n \<rparr> # assign_customBlocks ds ns"

text \<open>Lines 230-234: the descriptor after the five functions.\<close>

definition updateDescriptor :: "SFCDescriptor \<Rightarrow> IDescriptor \<Rightarrow> IDescriptor" where
  "updateDescriptor nd d =
     \<lparr> d_template = assign_template (d_template d) (map_option newData_template (sfc_template nd)),
       d_script = assign_script (d_script d) (map_option newData_script (sfc_script nd)),
       d_scriptSetup =
         assign_template (d_scriptSetup d) (map_option newData_scriptSetup (sfc_scriptSetup nd)),
       d_styles = assign_styles (d_styles d) (map newData_style (sfc_styles nd)),
       d_customBlocks =
         assign_customBlocks (d_customBlocks d) (map newData_customBlock (sfc_customBlocks nd)) \<rparr>"

text \<open>Lines 262, 287 and 312: \<^verbatim>\<open>lastUpdateChanged\<close>, from the contents before and after.\<close>

definition updateChanged :: "SFCDescriptor \<Rightarrow> IDescriptor \<Rightarrow> lastUpdateChanged" where
  "updateChanged nd d =
     \<lparr> template = (map_option content (d_template d) \<noteq> map_option sfc_content (sfc_template nd)),
       script = (map_option content (d_script d) \<noteq> map_option sfc_content (sfc_script nd)),
       scriptSetup =
         (map_option content (d_scriptSetup d) \<noteq> map_option sfc_content (sfc_scriptSetup nd)) \<rparr>"

subsection \<open>The generated documents\<close>

record VirtualDocument =
  vd_uri :: string
  vd_text :: string
  vd_version :: nat

text \<open>
  Modelled from the spec: the generators \<^verbatim>\<open>useScriptSetupGen\<close> (\<^verbatim>\<open>virtuals/script\<close>) and
  \<^verbatim>\<open>useTemplateScript\<close> (\<^verbatim>\<open>virtuals/template\<close>) are not among the sources. The spec: a
  generator is a pure function of its declared inputs; with its inputs absent it yields
  no document; a virtual document is \<^verbatim>\<open>{uri, text, version}\<close> and its version increments
  only when the generated text actually changes. \<^verbatim>\<open>generated\<close> is the text the generator
  computes from its inputs, or nothing; a document made where there was none starts at
  version 0.
\<close>

definition regenerate :: "string \<Rightarrow> string option \<Rightarrow> VirtualDocument option \<Rightarrow> VirtualDocument option" where
  "regenerate u generated old =
     (case generated of
        None \<Rightarrow> None
      | Some t \<Rightarrow>
          (case old of
             None \<Rightarrow> Some \<lparr> vd_uri = u, vd_text = t, vd_version = 0 \<rparr>
           | Some d \<Rightarrow>
               if vd_text d = t then Some d
               else Some (d\<lparr> vd_text := t, vd_version := vd_version d + 1 \<rparr>)))"

text \<open>
  \<^verbatim>\<open>templateScriptData\<close> (lines 60-69); a completion item by the fields the code reads.
\<close>

record CompletionItem =
  label :: string
  data_name :: string

record ITemplateScriptData =
  projectVersion :: "string option"
  tsd_context :: "string list"
  tsd_components :: "string list"
  tsd_props :: "string list"
  tsd_setupReturns :: "string list"
  tsd_htmlElements :: "string list"
  tsd_componentItems :: "CompletionItem list"
  tsd_htmlElementItems :: "CompletionItem list"

text \<open>
  The two generators whose versions \<^verbatim>\<open>update\<close> compares, as the functions from their
  inputs to the text they generate, and the uris of their documents.
\<close>

record generators =
  script_uri :: string
  generate_script :: "string \<Rightarrow> IDescriptor \<Rightarrow> string option"
  template_script_uri :: string
  generate_template_script :: "IDescriptor \<Rightarrow> ITemplateScriptData \<Rightarrow> string option"

text \<open>
  The state of \<^verbatim>\<open>createSourceFile\<close> that \<^verbatim>\<open>update\<close> and \<^verbatim>\<open>updateTemplateScript\<close> read
  and write. \<^verbatim>\<open>fs_vueText\<close> is \<^verbatim>\<open>vueDoc.value.getText()\<close>; \<^verbatim>\<open>fs_templateGen_updates\<close>
  counts the calls of \<^verbatim>\<open>virtualTemplateGen.update()\<close>.
\<close>

record file_state =
  fs_vueText :: string
  fs_descriptor :: IDescriptor
  fs_lastUpdateChanged :: lastUpdateChanged
  fs_templateScriptData :: ITemplateScriptData
  fs_scriptGen :: "VirtualDocument option"
  fs_templateGen :: "VirtualDocument option"
  fs_templateGen_updates :: nat

text \<open>
  What \<^verbatim>\<open>update\<close> gets: the text of the new document, and what the two parsers return
  for it (\<^verbatim>\<open>vueSfc.parse\<close> and \<^verbatim>\<open>htmlparser2.parseDocument\<close> are libraries).
\<close>

record update_input =
  newText :: string
  parsed :: SFCDescriptor
  childNodes :: "Node list"

record update_result =
  scriptUpdated :: bool
  templateScriptUpdated :: bool

text \<open>\<^verbatim>\<open>virtualTemplateGen.update()\<close> (lines 235 and 422).\<close>

definition virtualTemplateGen_update :: "generators \<Rightarrow> file_state \<Rightarrow> file_state" where
  "virtualTemplateGen_update g st =
     st\<lparr> fs_templateGen :=
            regenerate (template_script_uri g)
              (generate_template_script g (fs_descriptor st) (fs_templateScriptData st))
              (fs_templateGen st),
         fs_templateGen_updates := fs_templateGen_updates st + 1 \<rparr>"

text \<open>
  \<^verbatim>\<open>virtualScriptGen.textDocument.value\<close>, a computed ref over the document and the
  descriptor: reading it brings it up to date.
\<close>

definition virtualScriptGen_read :: "generators \<Rightarrow> file_state \<Rightarrow> file_state" where
  "virtualScriptGen_read g st =
     st\<lparr> fs_scriptGen :=
            regenerate (script_uri g) (generate_script g (fs_vueText st) (fs_descriptor st))
              (fs_scriptGen st) \<rparr>"

text \<open>Lines 192-249.\<close>

definition update :: "generators \<Rightarrow> update_input \<Rightarrow> file_state \<Rightarrow> file_state \<times> update_result" where
  "update g inp st =
     (let st0 = virtualScriptGen_read g st;
          versionsBeforeUpdate =
            (map_option vd_version (fs_scriptGen st0), map_option vd_version (fs_templateGen st0));
          blocks = blocks_of (parsed inp);
          newDescriptor = with_blocks (parsed inp)
                            (mark_ignored (newText inp) (childNodes inp) blocks);
          st1 = st0\<lparr> fs_lastUpdateChanged := updateChanged newDescriptor (fs_descriptor st0),
                      fs_descriptor := updateDescriptor newDescriptor (fs_descriptor st0) \<rparr>;
          st2 = virtualTemplateGen_update g st1;
          st3 = (if newText inp \<noteq> fs_vueText st2 then st2\<lparr> fs_vueText := newText inp \<rparr> else st2);
          st4 = virtualScriptGen_read g st3;
          versionsAfterUpdate =
            (map_option vd_version (fs_scriptGen st4), map_option vd_version (fs_templateGen st4))
      in (st4, \<lparr> scriptUpdated = (fst versionsBeforeUpdate \<noteq> fst versionsAfterUpdate),
                 templateScriptUpdated = (snd versionsBeforeUpdate \<noteq> snd versionsAfterUpdate) \<rparr>))"

text \<open>The \<^verbatim>\<open>ignore\<close> flags of a descriptor's sections, in the order of \<^verbatim>\<open>blocks\<close>.\<close>

definition ignore_flags :: "IDescriptor \<Rightarrow> bool list" where
  "ignore_flags d =
     option_list (map_option ignore (d_template d)) @ option_list (map_option ignore (d_script d))
     @ option_list (map_option ignore (d_scriptSetup d))
     @ map ignore (d_styles d) @ map ignore (d_customBlocks d)"

text \<open>The block a comment's marker is for, as its position in \<^verbatim>\<open>blocks\<close>.\<close>

definition ignore_target :: "SFCBlock list \<Rightarrow> Node \<Rightarrow> nat option" where
  "ignore_target blocks node =
     (case startIndex node of
        None \<Rightarrow> None
      | Some si \<Rightarrow> (case afterBlocks blocks si of [] \<Rightarrow> None | j # _ \<Rightarrow> Some j))"

definition tagged :: "SFCBlock \<Rightarrow> bool" where
  "tagged b = truthy_attr (sfc_attrs b ''__VLS_ignore'')"

subsection \<open>Examples of updates\<close>

text \<open>
  An example: a comment with the marker, then a template and a script block.
  \<^verbatim>\<open><!-- @vue-ignore --><template>x</template><script>y</script>\<close>
\<close>

definition example_vue_text :: string where
  "example_vue_text = ''<!-- @vue-ignore --><template>x</template><script>y</script>''"

definition example_nodes :: "Node list" where
  "example_nodes =
     [\<lparr> node_type = Comment, startIndex = Some 0, endIndex = Some 19 \<rparr>,
      \<lparr> node_type = Tag, startIndex = Some 20, endIndex = Some 41 \<rparr>,
      \<lparr> node_type = Script, startIndex = Some 42, endIndex = Some 59 \<rparr>]"

definition example_sfc_block :: "string \<Rightarrow> string \<Rightarrow> nat \<Rightarrow> nat \<Rightarrow> SFCBlock" where
  "example_sfc_block t c s e =
     \<lparr> sfc_type = t, sfc_content = c, sfc_loc_start_offset = s, sfc_loc_end_offset = e,
       sfc_attrs = (\<lambda>k. None), sfc_lang = None, sfc_src = None, sfc_module = None,
       sfc_scoped = None \<rparr>"

definition example_parsed :: SFCDescriptor where
  "example_parsed =
     \<lparr> sfc_template = Some (example_sfc_block ''template'' ''x'' 30 31),
       sfc_script = Some (example_sfc_block ''script'' ''y'' 50 51),
       sfc_scriptSetup = None, sfc_styles = [], sfc_customBlocks = [] \<rparr>"

definition example_update_input :: update_input where
  "example_update_input =
     \<lparr> newText = example_vue_text, parsed = example_parsed, childNodes = example_nodes \<rparr>"

definition example_generators :: generators where
  "example_generators =
     \<lparr> script_uri = ''file.vue.ts'',
       generate_script = (\<lambda>t d. map_option content (d_script d)),
       template_script_uri = ''file.vue.template.ts'',
       generate_template_script = (\<lambda>d tsd. map_option content (d_template d)) \<rparr>"

definition initial_file_state :: file_state where
  "initial_file_state =
     \<lparr> fs_vueText = [],
       fs_descriptor = \<lparr> d_template = None, d_script = None, d_scriptSetup = None,
                         d_styles = [], d_customBlocks = [] \<rparr>,
       fs_lastUpdateChanged = \<lparr> template = False, script = False, scriptSetup = False \<rparr>,
       fs_templateScriptData =
         \<lparr> projectVersion = None, tsd_context = [], tsd_components = [], tsd_props = [],
           tsd_setupReturns = [], tsd_htmlElements = [], tsd_componentItems = [],
           tsd_htmlElementItems = [] \<rparr>,
       fs_scriptGen = None, fs_templateGen = None, fs_templateGen_updates = 0 \<rparr>"

text \<open>A second example: the comment comes after the only block.\<close>

definition example_trailing_text :: string where
  "example_trailing_text = ''<script>y</script><!-- @vue-ignore -->''"

definition example_trailing_comment :: Node where
  "example_trailing_comment = \<lparr> node_type = Comment, startIndex = Some 18, endIndex = Some 37 \<rparr>"

subsection \<open>Which block a marker tags\<close>

lemma insort_key_agree:
  "f x = g x \<Longrightarrow> \<forall>y \<in> set ys. f y = g y \<Longrightarrow> insort_key f x ys = insort_key g x ys"
  by (induction ys) auto

lemma sort_key_agree:
  "\<forall>x \<in> set xs. f x = g x \<Longrightarrow> sort_key f xs = sort_key g xs"
proof (induction xs)
  case Nil
  then show ?case by simp
next
  case (Cons x xs)
  then have "sort_key f xs = sort_key g xs" by simp
  moreover have "insort_key f x (sort_key g xs) = insort_key g x (sort_key g xs)"
    using Cons.prems by (intro insort_key_agree) simp_all
  ultimately show ?case by (simp add: sort_key_def)
qed

lemma sort_key_head_least:
  assumes "sort_key f xs = j # rest"
  shows "j \<in> set xs \<and> (\<forall>x \<in> set xs. f j \<le> f x)"
proof -
  have "set (sort_key f xs) = set xs" by simp
  with assms have s: "set xs = insert j (set rest)" by auto
  have "sorted (map f (sort_key f xs))" by (rule sorted_sort_key)
  with assms have "\<forall>x \<in> set rest. f j \<le> f x" by auto
  with s show ?thesis by auto
qed

lemma afterBlocks_offsets:
  assumes "map sfc_loc_start_offset bs' = map sfc_loc_start_offset bs"
  shows "afterBlocks bs' si = afterBlocks bs si"
proof -
  have len: "length bs' = length bs"
    using assms by (rule map_eq_imp_length_eq)
  have nth: "sfc_loc_start_offset (bs' ! i) = sfc_loc_start_offset (bs ! i)" if "i < length bs" for i
    using assms that len by (metis nth_map)
  have f: "filter (\<lambda>i. si < sfc_loc_start_offset (bs' ! i)) [0..<length bs]
         = filter (\<lambda>i. si < sfc_loc_start_offset (bs ! i)) [0..<length bs]"
    by (rule filter_cong) (simp_all add: nth)
  show ?thesis
    unfolding afterBlocks_def len f
    by (rule sort_key_agree) (simp add: nth)
qed

lemma afterBlocks_Nil:
  "afterBlocks bs si = [] \<longleftrightarrow> (\<forall>k < length bs. \<not> si < sfc_loc_start_offset (bs ! k))"
proof -
  have "afterBlocks bs si = [] \<longleftrightarrow> set (afterBlocks bs si) = {}" by simp
  also have "\<dots> \<longleftrightarrow> (\<forall>k < length bs. \<not> si < sfc_loc_start_offset (bs ! k))"
    by (auto simp: afterBlocks_def)
  finally show ?thesis .
qed

lemma afterBlocks_head:
  assumes "afterBlocks bs si = j # rest"
  shows "j < length bs \<and> si < sfc_loc_start_offset (bs ! j)
       \<and> (\<forall>k < length bs. si < sfc_loc_start_offset (bs ! k)
            \<longrightarrow> sfc_loc_start_offset (bs ! j) \<le> sfc_loc_start_offset (bs ! k))"
  using sort_key_head_least[OF assms[unfolded afterBlocks_def]] by auto

lemma ignore_step_cases:
  "ignore_step docText blocks node =
     (if is_ignore_comment docText node then
        (case ignore_target blocks node of
           None \<Rightarrow> blocks
         | Some j \<Rightarrow> blocks[j := set_ignore (blocks ! j)])
      else blocks)"
  by (auto simp: ignore_step_def is_ignore_comment_def ignore_target_def Let_def
           split: option.splits list.splits)

lemma map_update_same: "(map f xs)[j := f (xs ! j)] = map f xs"
  by (metis list_update_id map_update)

lemma ignore_step_offsets:
  "map sfc_loc_start_offset (ignore_step docText blocks node) = map sfc_loc_start_offset blocks"
  by (auto simp: ignore_step_cases set_ignore_def map_update map_update_same
           split: option.splits)

lemma ignore_step_length [simp]: "length (ignore_step docText blocks node) = length blocks"
  by (auto simp: ignore_step_cases split: option.splits)

lemma tagged_set_ignore [simp]: "tagged (set_ignore b)"
  by (simp add: tagged_def set_ignore_def truthy_attr_def)

lemma ignore_target_offsets:
  "map sfc_loc_start_offset bs' = map sfc_loc_start_offset bs
     \<Longrightarrow> ignore_target bs' node = ignore_target bs node"
  using afterBlocks_offsets[of bs' bs]
  by (simp add: ignore_target_def split: option.splits)

lemma ignore_target_bound: "ignore_target bs node = Some j \<Longrightarrow> j < length bs"
  by (auto simp: ignore_target_def dest: afterBlocks_head split: option.splits list.splits)

lemma tagged_ignore_step:
  assumes "k < length blocks"
  shows "tagged (ignore_step docText blocks node ! k)
           \<longleftrightarrow> tagged (blocks ! k)
               \<or> (is_ignore_comment docText node \<and> ignore_target blocks node = Some k)"
proof (cases "is_ignore_comment docText node")
  case False
  then show ?thesis by (simp add: ignore_step_cases)
next
  case True
  show ?thesis
  proof (cases "ignore_target blocks node")
    case None
    with True show ?thesis by (simp add: ignore_step_cases)
  next
    case (Some j)
    with True assms show ?thesis
      by (cases "j = k") (simp_all add: ignore_step_cases)
  qed
qed

lemma mark_ignored_gen:
  "map sfc_loc_start_offset (foldl (ignore_step docText) bs nodes) = map sfc_loc_start_offset bs
   \<and> length (foldl (ignore_step docText) bs nodes) = length bs
   \<and> (\<forall>k < length bs.
        tagged (foldl (ignore_step docText) bs nodes ! k)
          \<longleftrightarrow> tagged (bs ! k)
              \<or> (\<exists>node \<in> set nodes. is_ignore_comment docText node \<and> ignore_target bs node = Some k))"
proof (induction nodes arbitrary: bs)
  case Nil
  then show ?case by simp
next
  case (Cons n ns)
  let ?bs1 = "ignore_step docText bs n"
  note off = ignore_step_offsets[of docText bs n]
  have tgt: "ignore_target ?bs1 node = ignore_target bs node" for node
    using off by (rule ignore_target_offsets)
  from Cons.IH[of ?bs1] off show ?case
    by (auto simp: tgt tagged_ignore_step)
qed


lemma take_slot_blocks:
  "length bs = length (option_list old) + n \<Longrightarrow>
     option_list (fst (take_slot old bs)) @ snd (take_slot old bs) = bs
     \<and> length (snd (take_slot old bs)) = n
     \<and> (fst (take_slot old bs) = None \<longleftrightarrow> old = None)"
  by (cases old; cases bs) (simp_all add: take_slot_def option_list_def)

lemma blocks_of_with_blocks:
  assumes "length bs = length (blocks_of nd)"
  shows "blocks_of (with_blocks nd bs) = bs"
proof -
  obtain t r1 where 1: "take_slot (sfc_template nd) bs = (t, r1)" by (cases "take_slot (sfc_template nd) bs")
  obtain s r2 where 2: "take_slot (sfc_script nd) r1 = (s, r2)" by (cases "take_slot (sfc_script nd) r1")
  obtain ss r3 where 3: "take_slot (sfc_scriptSetup nd) r2 = (ss, r3)" by (cases "take_slot (sfc_scriptSetup nd) r2")
  let ?n1 = "length (option_list (sfc_script nd)) + length (option_list (sfc_scriptSetup nd))
              + length (sfc_styles nd) + length (sfc_customBlocks nd)"
  let ?n2 = "length (option_list (sfc_scriptSetup nd))
              + length (sfc_styles nd) + length (sfc_customBlocks nd)"
  let ?n3 = "length (sfc_styles nd) + length (sfc_customBlocks nd)"
  from assms have "length bs = length (option_list (sfc_template nd)) + ?n1"
    by (simp add: blocks_of_def)
  from take_slot_blocks[OF this] 1 have a: "option_list t @ r1 = bs" "length r1 = ?n1" by simp_all
  then have "length r1 = length (option_list (sfc_script nd)) + ?n2" by simp
  from take_slot_blocks[OF this] 2 have b: "option_list s @ r2 = r1" "length r2 = ?n2" by simp_all
  then have "length r2 = length (option_list (sfc_scriptSetup nd)) + ?n3" by simp
  from take_slot_blocks[OF this] 3 have c: "option_list ss @ r3 = r2" "length r3 = ?n3" by simp_all
  have "blocks_of (with_blocks nd bs)
          = option_list t @ option_list s @ option_list ss
            @ take (length (sfc_styles nd)) r3 @ drop (length (sfc_styles nd)) r3"
    by (simp add: with_blocks_def blocks_of_def 1 2 3)
  also have "\<dots> = bs"
    using a(1) b(1) c(1) by simp
  finally show ?thesis .
qed

lemma ignore_assign_styles: "map ignore (assign_styles old ns) = map ignore ns"
  by (induction old ns rule: assign_styles.induct) simp_all

lemma ignore_assign_customBlocks: "map ignore (assign_customBlocks old ns) = map ignore ns"
  by (induction old ns rule: assign_customBlocks.induct) simp_all

lemma ignore_assign_template:
  "map_option ignore (assign_template old n) = map_option ignore n"
  by (simp add: assign_template_def split: option.splits)

lemma ignore_assign_script:
  "map_option ignore (assign_script old n) = map_option ignore n"
  by (simp add: assign_script_def split: option.splits)

lemma ignore_flags_updateDescriptor:
  "ignore_flags (updateDescriptor nd d) = map tagged (blocks_of nd)"
  by (simp add: ignore_flags_def updateDescriptor_def blocks_of_def ignore_assign_styles
      ignore_assign_customBlocks ignore_assign_template ignore_assign_script
      option.map_comp comp_def newData_template_def newData_script_def newData_scriptSetup_def
      newData_style_def newData_customBlock_def tagged_def option_list_def
      split: option.splits)

lemma mark_ignored_length [simp]: "length (mark_ignored docText nodes bs) = length bs"
  using mark_ignored_gen[of docText bs nodes] by (simp add: mark_ignored_def)

lemma update_descriptor:
  "fs_descriptor (fst (update g inp st))
     = updateDescriptor
         (with_blocks (parsed inp)
            (mark_ignored (newText inp) (childNodes inp) (blocks_of (parsed inp))))
         (fs_descriptor st)"
  by (simp add: update_def Let_def virtualScriptGen_read_def virtualTemplateGen_update_def)

lemma update_ignore_flags:
  "ignore_flags (fs_descriptor (fst (update g inp st)))
     = map tagged (mark_ignored (newText inp) (childNodes inp) (blocks_of (parsed inp)))"
  by (simp add: update_descriptor ignore_flags_updateDescriptor blocks_of_with_blocks)


text \<open>
  C9. For a top-level comment node with both indices whose text has the marker, starting
  at \<open>si\<close>: when no block of \<^verbatim>\<open>blocks\<close> has a start offset greater than \<open>si\<close>, the
  step changes nothing; otherwise it changes \<^verbatim>\<open>blocks\<close> at one position \<open>j\<close> only,
  where it sets the attribute that makes the block tagged, and the block at \<open>j\<close> starts
  after \<open>si\<close> with a start offset that is least among the blocks starting after \<open>si\<close>.
  Any other node changes nothing. After the whole loop a block is tagged exactly when it
  was tagged before (by an attribute of its own) or it is the target of some comment with
  the marker. The \<^verbatim>\<open>ignore\<close> flags of the sections after \<^verbatim>\<open>update\<close> are the tags of
  the blocks after the loop, in the order of \<^verbatim>\<open>blocks\<close>.
\<close>

theorem ignore_marker_tags_next_block:
  "(is_ignore_comment docText node \<and> startIndex node = Some si \<longrightarrow>
      ((\<forall>k < length blocks. \<not> si < sfc_loc_start_offset (blocks ! k))
          \<longrightarrow> ignore_step docText blocks node = blocks)
      \<and> ((\<exists>k < length blocks. si < sfc_loc_start_offset (blocks ! k))
          \<longrightarrow> (\<exists>j < length blocks.
                 si < sfc_loc_start_offset (blocks ! j)
                 \<and> (\<forall>k < length blocks. si < sfc_loc_start_offset (blocks ! k)
                       \<longrightarrow> sfc_loc_start_offset (blocks ! j) \<le> sfc_loc_start_offset (blocks ! k))
                 \<and> ignore_target blocks node = Some j
                 \<and> ignore_step docText blocks node = blocks[j := set_ignore (blocks ! j)]
                 \<and> tagged (set_ignore (blocks ! j)))))
   \<and> (\<not> is_ignore_comment docText node \<longrightarrow> ignore_step docText blocks node = blocks)
   \<and> (\<forall>k < length blocks.
         tagged (mark_ignored docText nodes blocks ! k)
           \<longleftrightarrow> tagged (blocks ! k)
               \<or> (\<exists>node \<in> set nodes. is_ignore_comment docText node
                                       \<and> ignore_target blocks node = Some k))
   \<and> ignore_flags (fs_descriptor (fst (update g inp st)))
       = map tagged (mark_ignored (newText inp) (childNodes inp) (blocks_of (parsed inp)))"
proof -
  have none: "ignore_step docText blocks node = blocks"
    if "is_ignore_comment docText node" "startIndex node = Some si"
       "\<forall>k < length blocks. \<not> si < sfc_loc_start_offset (blocks ! k)"
  proof -
    from that(3) have "afterBlocks blocks si = []" by (simp add: afterBlocks_Nil)
    with that(2) show ?thesis by (simp add: ignore_step_cases ignore_target_def)
  qed
  have some: "\<exists>j < length blocks.
                 si < sfc_loc_start_offset (blocks ! j)
                 \<and> (\<forall>k < length blocks. si < sfc_loc_start_offset (blocks ! k)
                       \<longrightarrow> sfc_loc_start_offset (blocks ! j) \<le> sfc_loc_start_offset (blocks ! k))
                 \<and> ignore_target blocks node = Some j
                 \<and> ignore_step docText blocks node = blocks[j := set_ignore (blocks ! j)]
                 \<and> tagged (set_ignore (blocks ! j))"
    if "is_ignore_comment docText node" "startIndex node = Some si"
       "\<exists>k < length blocks. si < sfc_loc_start_offset (blocks ! k)"
  proof -
    from that(3) have "afterBlocks blocks si \<noteq> []" by (simp add: afterBlocks_Nil)
    then obtain j rest where ab: "afterBlocks blocks si = j # rest"
      by (cases "afterBlocks blocks si") auto
    from ab that(2) have t: "ignore_target blocks node = Some j"
      by (simp add: ignore_target_def)
    with that(1) have "ignore_step docText blocks node = blocks[j := set_ignore (blocks ! j)]"
      by (simp add: ignore_step_cases)
    with afterBlocks_head[OF ab] t show ?thesis by auto
  qed
  have rest: "\<not> is_ignore_comment docText node \<longrightarrow> ignore_step docText blocks node = blocks"
    by (simp add: ignore_step_cases)
  have loop: "\<forall>k < length blocks.
         tagged (mark_ignored docText nodes blocks ! k)
           \<longleftrightarrow> tagged (blocks ! k)
               \<or> (\<exists>node \<in> set nodes. is_ignore_comment docText node
                                       \<and> ignore_target blocks node = Some k)"
    using mark_ignored_gen[of docText blocks nodes] by (simp add: mark_ignored_def)
  from none some rest loop update_ignore_flags[of g inp st] show ?thesis
    by blast
qed

lemma example_comment: "is_ignore_comment example_vue_text (example_nodes ! 0)"
  by (simp add: is_ignore_comment_def example_nodes_def example_vue_text_def substring_def
      indexOf_def)

lemma example_afterBlocks: "afterBlocks (blocks_of example_parsed) 0 = [0, 1]"
  by (simp add: afterBlocks_def blocks_of_def example_parsed_def option_list_def
      example_sfc_block_def upt_rec)

lemma example_mark:
  "map tagged (mark_ignored example_vue_text example_nodes (blocks_of example_parsed)) = [True, False]"
  by (simp add: mark_ignored_def ignore_step_def example_nodes_def example_afterBlocks
      example_vue_text_def substring_def indexOf_def Let_def)
     (simp add: blocks_of_def example_parsed_def option_list_def set_ignore_def tagged_def
      truthy_attr_def example_sfc_block_def)


lemma example_trailing:
  "is_ignore_comment example_trailing_text example_trailing_comment"
  "ignore_step example_trailing_text [example_sfc_block ''script'' ''y'' 8 9]
     example_trailing_comment = [example_sfc_block ''script'' ''y'' 8 9]"
  by (simp_all add: is_ignore_comment_def ignore_step_def example_trailing_comment_def
      example_trailing_text_def substring_def indexOf_def afterBlocks_def
      example_sfc_block_def Let_def)

theorem ignore_marker_tags_next_block_witness:
  "is_ignore_comment example_vue_text (example_nodes ! 0)
   \<and> startIndex (example_nodes ! 0) = Some 0
   \<and> map sfc_loc_start_offset (blocks_of example_parsed) = [30, 50]
   \<and> ignore_target (blocks_of example_parsed) (example_nodes ! 0) = Some 0
   \<and> ignore_step example_vue_text (blocks_of example_parsed) (example_nodes ! 0)
       = (blocks_of example_parsed)[0 := set_ignore (blocks_of example_parsed ! 0)]
   \<and> \<not> is_ignore_comment example_vue_text (example_nodes ! 1)
   \<and> map tagged (mark_ignored example_vue_text example_nodes (blocks_of example_parsed))
       = [True, False]
   \<and> ignore_flags (fs_descriptor
        (fst (update example_generators example_update_input initial_file_state)))
       = [True, False]
   \<and> is_ignore_comment example_trailing_text example_trailing_comment
   \<and> startIndex example_trailing_comment = Some 18
   \<and> ignore_step example_trailing_text [example_sfc_block ''script'' ''y'' 8 9]
        example_trailing_comment = [example_sfc_block ''script'' ''y'' 8 9]"
proof -
  have c: "is_ignore_comment example_vue_text (example_nodes ! 0)"
    by (rule example_comment)
  have s: "startIndex (example_nodes ! 0) = Some 0"
    by (simp add: example_nodes_def)
  have o: "map sfc_loc_start_offset (blocks_of example_parsed) = [30, 50]"
    by (simp add: blocks_of_def example_parsed_def option_list_def example_sfc_block_def)
  have t: "ignore_target (blocks_of example_parsed) (example_nodes ! 0) = Some 0"
    by (simp add: ignore_target_def s example_afterBlocks)
  have n: "\<not> is_ignore_comment example_vue_text (example_nodes ! 1)"
    by (simp add: is_ignore_comment_def example_nodes_def)
  have i: "newText example_update_input = example_vue_text"
    "childNodes example_update_input = example_nodes"
    "parsed example_update_input = example_parsed"
    by (simp_all add: example_update_input_def)
  from ignore_marker_tags_next_block[of example_vue_text "example_nodes ! 0" 0
      "blocks_of example_parsed" example_nodes example_generators example_update_input
      initial_file_state]
  have "ignore_flags (fs_descriptor
        (fst (update example_generators example_update_input initial_file_state)))
       = [True, False]"
    by (simp add: i example_mark)
  moreover have "ignore_step example_vue_text (blocks_of example_parsed) (example_nodes ! 0)
       = (blocks_of example_parsed)[0 := set_ignore (blocks_of example_parsed ! 0)]"
    using c t by (simp add: ignore_step_cases)
  ultimately show ?thesis
    using c s o t n example_mark example_trailing
    by (simp add: example_trailing_comment_def)
qed

subsection \<open>The flags that \<^verbatim>\<open>update\<close> returns\<close>

text \<open>The example after its first update, and an edit of its script.\<close>

definition example_update_input_edited :: update_input where
  "example_update_input_edited =
     \<lparr> newText = ''<!-- @vue-ignore --><template>x</template><script>z</script>'',
       parsed = example_parsed\<lparr> sfc_script := Some (example_sfc_block ''script'' ''z'' 50 51) \<rparr>,
       childNodes = example_nodes \<rparr>"

definition example_file_state :: file_state where
  "example_file_state =
     \<lparr> fs_vueText = example_vue_text,
       fs_descriptor =
         \<lparr> d_template = Some \<lparr> lang = ''html'', content = ''x'', loc_start = 30, loc_end = 31,
                               ignore = True \<rparr>,
           d_script = Some \<lparr> lang = ''js'', content = ''y'', loc_start = 50, loc_end = 51,
                             ignore = False, src = None \<rparr>,
           d_scriptSetup = None, d_styles = [], d_customBlocks = [] \<rparr>,
       fs_lastUpdateChanged = \<lparr> template = True, script = True, scriptSetup = False \<rparr>,
       fs_templateScriptData = fs_templateScriptData initial_file_state,
       fs_scriptGen = Some \<lparr> vd_uri = ''file.vue.ts'', vd_text = ''y'', vd_version = 0 \<rparr>,
       fs_templateGen = Some \<lparr> vd_uri = ''file.vue.template.ts'', vd_text = ''x'', vd_version = 0 \<rparr>,
       fs_templateGen_updates = 1 \<rparr>"

lemma regenerate_version_text:
  "map_option vd_version (regenerate u generated old) \<noteq> map_option vd_version old
     \<longleftrightarrow> map_option vd_text (regenerate u generated old) \<noteq> map_option vd_text old"
  by (auto simp: regenerate_def split: option.splits)

lemma regenerate_text: "map_option vd_text (regenerate u generated old) = generated"
  by (auto simp: regenerate_def split: option.splits)

lemma regenerate_same_text:
  "regenerate u (Some (vd_text d)) (Some d) = Some d"
  by (simp add: regenerate_def)

lemma update_scriptGen:
  "fs_scriptGen (fst (update g inp st))
     = regenerate (script_uri g)
         (generate_script g (fs_vueText (fst (update g inp st)))
            (fs_descriptor (fst (update g inp st))))
         (fs_scriptGen (virtualScriptGen_read g st))"
  by (simp add: update_def Let_def virtualScriptGen_read_def virtualTemplateGen_update_def)

lemma update_templateGen:
  "fs_templateGen (fst (update g inp st))
     = regenerate (template_script_uri g)
         (generate_template_script g (fs_descriptor (fst (update g inp st)))
            (fs_templateScriptData st))
         (fs_templateGen st)"
  by (simp add: update_def Let_def virtualScriptGen_read_def virtualTemplateGen_update_def)

lemma update_flags:
  "scriptUpdated (snd (update g inp st))
     = (map_option vd_version (fs_scriptGen (virtualScriptGen_read g st))
          \<noteq> map_option vd_version (fs_scriptGen (fst (update g inp st))))"
  "templateScriptUpdated (snd (update g inp st))
     = (map_option vd_version (fs_templateGen st)
          \<noteq> map_option vd_version (fs_templateGen (fst (update g inp st))))"
  by (simp_all add: update_def Let_def virtualScriptGen_read_def virtualTemplateGen_update_def)

text \<open>
  C7. \<^verbatim>\<open>scriptUpdated\<close> is true exactly when the version of the generated script
  document after the update differs from its version before (an absent document has no
  version), and \<^verbatim>\<open>templateScriptUpdated\<close> likewise for the generated template script.
  With generators that raise the version only when the generated text changes, each flag
  is true exactly when the text generated from the updated state differs from the text of
  the document before (or one of the two is absent), so an update that generates the
  same text again yields false.
\<close>

theorem update_flags_follow_versions:
  "scriptUpdated (snd (update g inp st))
     = (map_option vd_version (fs_scriptGen (virtualScriptGen_read g st))
          \<noteq> map_option vd_version (fs_scriptGen (fst (update g inp st))))
   \<and> templateScriptUpdated (snd (update g inp st))
       = (map_option vd_version (fs_templateGen st)
            \<noteq> map_option vd_version (fs_templateGen (fst (update g inp st))))
   \<and> scriptUpdated (snd (update g inp st))
       = (map_option vd_text (fs_scriptGen (virtualScriptGen_read g st))
            \<noteq> generate_script g (fs_vueText (fst (update g inp st)))
                 (fs_descriptor (fst (update g inp st))))
   \<and> templateScriptUpdated (snd (update g inp st))
       = (map_option vd_text (fs_templateGen st)
            \<noteq> generate_template_script g (fs_descriptor (fst (update g inp st)))
                 (fs_templateScriptData st))
   \<and> map_option vd_text (fs_scriptGen (fst (update g inp st)))
       = generate_script g (fs_vueText (fst (update g inp st)))
           (fs_descriptor (fst (update g inp st)))
   \<and> map_option vd_text (fs_templateGen (fst (update g inp st)))
       = generate_template_script g (fs_descriptor (fst (update g inp st)))
           (fs_templateScriptData st)"
proof -
  let ?st' = "fst (update g inp st)"
  have s: "map_option vd_text (fs_scriptGen ?st')
       = generate_script g (fs_vueText ?st') (fs_descriptor ?st')"
    by (subst update_scriptGen) (rule regenerate_text)
  have t: "map_option vd_text (fs_templateGen ?st')
       = generate_template_script g (fs_descriptor ?st') (fs_templateScriptData st)"
    by (subst update_templateGen) (rule regenerate_text)
  have sv: "(map_option vd_version (fs_scriptGen (virtualScriptGen_read g st))
              \<noteq> map_option vd_version (fs_scriptGen ?st'))
          = (map_option vd_text (fs_scriptGen (virtualScriptGen_read g st))
              \<noteq> map_option vd_text (fs_scriptGen ?st'))"
    using regenerate_version_text[of "script_uri g"
        "generate_script g (fs_vueText ?st') (fs_descriptor ?st')"
        "fs_scriptGen (virtualScriptGen_read g st)"]
    unfolding update_scriptGen[symmetric] by metis
  have tv: "(map_option vd_version (fs_templateGen st)
              \<noteq> map_option vd_version (fs_templateGen ?st'))
          = (map_option vd_text (fs_templateGen st)
              \<noteq> map_option vd_text (fs_templateGen ?st'))"
    using regenerate_version_text[of "template_script_uri g"
        "generate_template_script g (fs_descriptor ?st') (fs_templateScriptData st)"
        "fs_templateGen st"]
    unfolding update_templateGen[symmetric] by metis
  show ?thesis
    unfolding update_flags sv tv s t by simp
qed


lemma example_marked:
  "mark_ignored example_vue_text example_nodes (blocks_of example_parsed)
     = [set_ignore (example_sfc_block ''template'' ''x'' 30 31),
        example_sfc_block ''script'' ''y'' 50 51]"
  by (simp add: mark_ignored_def ignore_step_def example_nodes_def example_afterBlocks
      example_vue_text_def substring_def indexOf_def Let_def)
     (simp add: blocks_of_def example_parsed_def option_list_def)

lemma update_eq:
  "update g inp st =
     (let nd = with_blocks (parsed inp)
                 (mark_ignored (newText inp) (childNodes inp) (blocks_of (parsed inp)));
          d' = updateDescriptor nd (fs_descriptor st);
          before = regenerate (script_uri g) (generate_script g (fs_vueText st) (fs_descriptor st))
                     (fs_scriptGen st);
          sg = regenerate (script_uri g) (generate_script g (newText inp) d') before;
          tg = regenerate (template_script_uri g)
                 (generate_template_script g d' (fs_templateScriptData st)) (fs_templateGen st)
      in (\<lparr> fs_vueText = newText inp, fs_descriptor = d',
             fs_lastUpdateChanged = updateChanged nd (fs_descriptor st),
             fs_templateScriptData = fs_templateScriptData st,
             fs_scriptGen = sg, fs_templateGen = tg,
             fs_templateGen_updates = fs_templateGen_updates st + 1 \<rparr>,
          \<lparr> scriptUpdated = (map_option vd_version before \<noteq> map_option vd_version sg),
            templateScriptUpdated =
              (map_option vd_version (fs_templateGen st) \<noteq> map_option vd_version tg) \<rparr>))"
  by (cases st) (simp add: update_def Let_def virtualScriptGen_read_def virtualTemplateGen_update_def)

lemma example_new_descriptor:
  "with_blocks example_parsed
     (mark_ignored example_vue_text example_nodes (blocks_of example_parsed))
     = example_parsed\<lparr> sfc_template := Some (set_ignore (example_sfc_block ''template'' ''x'' 30 31)) \<rparr>"
  unfolding example_marked
  by (simp add: with_blocks_def take_slot_def example_parsed_def)

lemma example_descriptor:
  "updateDescriptor
     (example_parsed\<lparr> sfc_template := Some (set_ignore (example_sfc_block ''template'' ''x'' 30 31)) \<rparr>) d
   = \<lparr> d_template = Some \<lparr> lang = ''html'', content = ''x'', loc_start = 30, loc_end = 31,
                           ignore = True \<rparr>,
       d_script = Some \<lparr> lang = ''js'', content = ''y'', loc_start = 50, loc_end = 51,
                         ignore = False, src = None \<rparr>,
       d_scriptSetup = None, d_styles = [], d_customBlocks = [] \<rparr>"
  by (simp add: updateDescriptor_def example_parsed_def assign_template_def assign_script_def
      newData_template_def newData_script_def or_default_def set_ignore_def truthy_attr_def
      example_sfc_block_def split: option.splits)

lemma example_first_update:
  "update example_generators example_update_input initial_file_state
     = (example_file_state, \<lparr> scriptUpdated = True, templateScriptUpdated = True \<rparr>)"
proof -
  have i: "newText example_update_input = example_vue_text"
    "childNodes example_update_input = example_nodes"
    "parsed example_update_input = example_parsed"
    by (simp_all add: example_update_input_def)
  show ?thesis
    unfolding update_eq Let_def i example_new_descriptor example_descriptor
    by (simp add: Let_def example_generators_def initial_file_state_def example_file_state_def
        regenerate_def updateChanged_def example_parsed_def example_sfc_block_def)
qed

lemma example_second_update:
  "snd (update example_generators example_update_input example_file_state)
     = \<lparr> scriptUpdated = False, templateScriptUpdated = False \<rparr>"
proof -
  have i: "newText example_update_input = example_vue_text"
    "childNodes example_update_input = example_nodes"
    "parsed example_update_input = example_parsed"
    by (simp_all add: example_update_input_def)
  show ?thesis
    unfolding update_eq Let_def i example_new_descriptor example_descriptor
    by (simp add: Let_def example_generators_def example_file_state_def regenerate_def)
qed


lemma example_edited_update:
  "snd (update example_generators example_update_input_edited example_file_state)
     = \<lparr> scriptUpdated = True, templateScriptUpdated = False \<rparr>"
  "fs_scriptGen (fst (update example_generators example_update_input_edited example_file_state))
     = Some \<lparr> vd_uri = ''file.vue.ts'', vd_text = ''z'', vd_version = 1 \<rparr>"
proof -
  let ?parsed = "example_parsed\<lparr> sfc_script := Some (example_sfc_block ''script'' ''z'' 50 51) \<rparr>"
  have i: "newText example_update_input_edited
             = ''<!-- @vue-ignore --><template>x</template><script>z</script>''"
    "childNodes example_update_input_edited = example_nodes"
    "parsed example_update_input_edited = ?parsed"
    by (simp_all add: example_update_input_edited_def)
  have ab: "afterBlocks (blocks_of ?parsed) 0 = [0, 1]"
    by (simp add: afterBlocks_def blocks_of_def example_parsed_def option_list_def
        example_sfc_block_def upt_rec)
  have m: "mark_ignored ''<!-- @vue-ignore --><template>x</template><script>z</script>''
             example_nodes (blocks_of ?parsed)
           = [set_ignore (example_sfc_block ''template'' ''x'' 30 31),
              example_sfc_block ''script'' ''z'' 50 51]"
    by (simp add: mark_ignored_def ignore_step_def example_nodes_def ab
        substring_def indexOf_def Let_def)
       (simp add: blocks_of_def example_parsed_def option_list_def)
  have nd: "with_blocks ?parsed
              [set_ignore (example_sfc_block ''template'' ''x'' 30 31),
               example_sfc_block ''script'' ''z'' 50 51]
            = \<lparr> sfc_template = Some (set_ignore (example_sfc_block ''template'' ''x'' 30 31)),
                sfc_script = Some (example_sfc_block ''script'' ''z'' 50 51),
                sfc_scriptSetup = None, sfc_styles = [], sfc_customBlocks = [] \<rparr>"
    by (simp add: with_blocks_def take_slot_def example_parsed_def)
  have d: "updateDescriptor
             \<lparr> sfc_template = Some (set_ignore (example_sfc_block ''template'' ''x'' 30 31)),
               sfc_script = Some (example_sfc_block ''script'' ''z'' 50 51),
               sfc_scriptSetup = None, sfc_styles = [], sfc_customBlocks = [] \<rparr>
             (fs_descriptor example_file_state)
           = \<lparr> d_template = Some \<lparr> lang = ''html'', content = ''x'', loc_start = 30,
                                   loc_end = 31, ignore = True \<rparr>,
               d_script = Some \<lparr> lang = ''js'', content = ''z'', loc_start = 50, loc_end = 51,
                                 ignore = False, src = None \<rparr>,
               d_scriptSetup = None, d_styles = [], d_customBlocks = [] \<rparr>"
    by (simp add: updateDescriptor_def assign_template_def assign_script_def
        newData_template_def newData_script_def or_default_def set_ignore_def truthy_attr_def
        example_sfc_block_def example_file_state_def)
  show "snd (update example_generators example_update_input_edited example_file_state)
     = \<lparr> scriptUpdated = True, templateScriptUpdated = False \<rparr>"
    unfolding update_eq Let_def i m nd d
    by (simp add: example_generators_def example_file_state_def regenerate_def)
  show "fs_scriptGen (fst (update example_generators example_update_input_edited example_file_state))
     = Some \<lparr> vd_uri = ''file.vue.ts'', vd_text = ''z'', vd_version = 1 \<rparr>"
    unfolding update_eq Let_def i m nd d
    by (simp add: example_generators_def example_file_state_def regenerate_def)
qed

theorem update_flags_follow_versions_witness:
  "update example_generators example_update_input initial_file_state
     = (example_file_state, \<lparr> scriptUpdated = True, templateScriptUpdated = True \<rparr>)
   \<and> snd (update example_generators example_update_input example_file_state)
       = \<lparr> scriptUpdated = False, templateScriptUpdated = False \<rparr>
   \<and> snd (update example_generators example_update_input_edited example_file_state)
       = \<lparr> scriptUpdated = True, templateScriptUpdated = False \<rparr>
   \<and> map_option vd_version (fs_scriptGen example_file_state) = Some 0
   \<and> map_option vd_version
        (fs_scriptGen (fst (update example_generators example_update_input_edited
           example_file_state))) = Some 1"
  using update_flags_follow_versions[of example_generators example_update_input_edited
      example_file_state]
  by (simp add: example_first_update example_second_update example_edited_update)
     (simp add: example_file_state_def)

section \<open>The cross-reference data (sourceFile.ts, lines 386-430)\<close>

text \<open>
  What \<^verbatim>\<open>updateTemplateScript\<close> reads besides the state: the project version of the
  script engine's host (\<^verbatim>\<open>getProjectVersion?.()\<close>, undefined without the method), its
  completion, the main script document, and the five marker texts of \<^verbatim>\<open>SearchTexts\<close>
  (declared in \<^verbatim>\<open>utils/string\<close>).
\<close>

record SearchTexts =
  st_Context :: string
  st_Components :: string
  st_Props :: string
  st_SetupReturns :: string
  st_HtmlElements :: string

record cross_reference_env =
  getProjectVersion :: "string option"
  doComplete :: "string \<Rightarrow> Position \<Rightarrow> CompletionItem list"
  virtualScriptMain_textDocument :: TextDocument
  searchTexts :: SearchTexts

text \<open>
  \<^verbatim>\<open>new Set(xs)\<close> keeps the first occurrence of each element, in order; \<^verbatim>\<open>eqSet\<close> is
  lines 425-429 on two such sets.
\<close>

definition new_Set :: "'a list \<Rightarrow> 'a list" where
  "new_Set xs = rev (remdups (rev xs))"

definition eqSet :: "'a list \<Rightarrow> 'a list \<Rightarrow> bool" where
  "eqSet as bs =
     (if length as \<noteq> length bs then False
      else list_all (\<lambda>a. a \<in> set bs) as)"

text \<open>
  Lines 394-398: the completions at a marker, none when the document does not have it.
\<close>

definition complete_at :: "cross_reference_env \<Rightarrow> string \<Rightarrow> CompletionItem list" where
  "complete_at env marker =
     (let doc = virtualScriptMain_textDocument env; docText = getText doc
      in if indexOf docText marker \<ge> 0
         then doComplete env (uri doc) (positionAt doc (nat (indexOf docText marker)))
         else [])"

text \<open>Lines 386-424.\<close>

definition updateTemplateScript ::
  "generators \<Rightarrow> cross_reference_env \<Rightarrow> file_state \<Rightarrow> file_state \<times> bool"
where
  "updateTemplateScript g env st =
     (if projectVersion (fs_templateScriptData st) = getProjectVersion env then (st, False)
      else
        let st1 = st\<lparr> fs_templateScriptData :=
                        (fs_templateScriptData st)\<lparr> projectVersion := getProjectVersion env \<rparr> \<rparr>;
            context = complete_at env (st_Context (searchTexts env));
            components = complete_at env (st_Components (searchTexts env));
            props = complete_at env (st_Props (searchTexts env));
            setupReturns = complete_at env (st_SetupReturns (searchTexts env));
            globalEls = complete_at env (st_HtmlElements (searchTexts env));
            contextNames = map data_name context;
            componentNames = map data_name components;
            propNames = map data_name props;
            setupReturnNames = map data_name setupReturns;
            htmlElementNames = map data_name globalEls;
            tsd = fs_templateScriptData st1
        in if eqSet (new_Set contextNames) (new_Set (tsd_context tsd))
              \<and> eqSet (new_Set componentNames) (new_Set (tsd_components tsd))
              \<and> eqSet (new_Set propNames) (new_Set (tsd_props tsd))
              \<and> eqSet (new_Set setupReturnNames) (new_Set (tsd_setupReturns tsd))
              \<and> eqSet (new_Set htmlElementNames) (new_Set (tsd_htmlElements tsd))
           then (st1, False)
           else
             let st2 = st1\<lparr> fs_templateScriptData :=
                              tsd\<lparr> tsd_context := contextNames,
                                   tsd_components := componentNames,
                                   tsd_props := propNames,
                                   tsd_setupReturns := setupReturnNames,
                                   tsd_htmlElements := htmlElementNames,
                                   tsd_componentItems := components,
                                   tsd_htmlElementItems := globalEls \<rparr> \<rparr>
             in (virtualTemplateGen_update g st2, True))"

text \<open>The five name lists of the data, and the five that the engine gives now.\<close>

definition name_sets :: "ITemplateScriptData \<Rightarrow> string set list" where
  "name_sets tsd =
     [set (tsd_context tsd), set (tsd_components tsd), set (tsd_props tsd),
      set (tsd_setupReturns tsd), set (tsd_htmlElements tsd)]"

definition name_lists :: "ITemplateScriptData \<Rightarrow> string list list" where
  "name_lists tsd =
     [tsd_context tsd, tsd_components tsd, tsd_props tsd, tsd_setupReturns tsd,
      tsd_htmlElements tsd]"

definition harvested :: "cross_reference_env \<Rightarrow> string list list" where
  "harvested env =
     [map data_name (complete_at env (st_Context (searchTexts env))),
      map data_name (complete_at env (st_Components (searchTexts env))),
      map data_name (complete_at env (st_Props (searchTexts env))),
      map data_name (complete_at env (st_SetupReturns (searchTexts env))),
      map data_name (complete_at env (st_HtmlElements (searchTexts env)))]"

text \<open>An example: a main document with two of the markers.\<close>

definition example_search_texts :: SearchTexts where
  "example_search_texts =
     \<lparr> st_Context = ''__VLS_ctx.'', st_Components = ''__VLS_components.'',
       st_Props = ''__VLS_props.'', st_SetupReturns = ''__VLS_setup.'',
       st_HtmlElements = ''__VLS_elements.'' \<rparr>"

definition example_cross_env :: "string option \<Rightarrow> cross_reference_env" where
  "example_cross_env v =
     \<lparr> getProjectVersion = v,
       doComplete = (\<lambda>u p. if character p = 0 then [\<lparr> label = ''msg'', data_name = ''msg'' \<rparr>]
                            else if character p = 11
                            then [\<lparr> label = ''Foo'', data_name = ''Foo'' \<rparr>,
                                  \<lparr> label = ''Foo'', data_name = ''Foo'' \<rparr>]
                            else []),
       virtualScriptMain_textDocument =
         \<lparr> uri = ''file.vue.main.ts'', languageId = ''typescript'', version = 0,
           getText = ''__VLS_ctx.;__VLS_components.;'', getText_range = (\<lambda>r. []),
           positionAt = example_position_at \<rparr>,
       searchTexts = example_search_texts \<rparr>"

definition example_cross_data :: "string option \<Rightarrow> ITemplateScriptData" where
  "example_cross_data v =
     \<lparr> projectVersion = v, tsd_context = [''msg''], tsd_components = [''Foo''],
       tsd_props = [], tsd_setupReturns = [], tsd_htmlElements = [],
       tsd_componentItems = [\<lparr> label = ''Foo'', data_name = ''Foo'' \<rparr>],
       tsd_htmlElementItems = [] \<rparr>"

definition example_cross_state :: file_state where
  "example_cross_state =
     initial_file_state\<lparr> fs_templateScriptData := example_cross_data (Some ''1'') \<rparr>"

lemma set_new_Set [simp]: "set (new_Set xs) = set xs"
  by (simp add: new_Set_def)

lemma distinct_new_Set [simp]: "distinct (new_Set xs)"
  by (simp add: new_Set_def)

lemma eqSet_iff: "eqSet (new_Set as) (new_Set bs) \<longleftrightarrow> set as = set bs"
proof
  assume "eqSet (new_Set as) (new_Set bs)"
  then have len: "length (new_Set as) = length (new_Set bs)"
    and sub: "set as \<subseteq> set bs"
    by (auto simp: eqSet_def list_all_iff split: if_splits)
  have "card (set as) = length (new_Set as)" "card (set bs) = length (new_Set bs)"
    using distinct_card[of "new_Set as"] distinct_card[of "new_Set bs"] by simp_all
  with len have "card (set as) = card (set bs)" by simp
  with sub show "set as = set bs"
    by (simp add: card_subset_eq)
next
  assume eq: "set as = set bs"
  have "length (new_Set as) = card (set as)" "length (new_Set bs) = card (set bs)"
    using distinct_card[of "new_Set as"] distinct_card[of "new_Set bs"] by simp_all
  with eq show "eqSet (new_Set as) (new_Set bs)"
    by (simp add: eqSet_def list_all_iff)
qed

lemma updateTemplateScript_same_version:
  "projectVersion (fs_templateScriptData st) = getProjectVersion env
     \<Longrightarrow> updateTemplateScript g env st = (st, False)"
  by (simp add: updateTemplateScript_def)

lemma updateTemplateScript_same_sets:
  assumes "projectVersion (fs_templateScriptData st) \<noteq> getProjectVersion env"
    and "map set (harvested env) = name_sets (fs_templateScriptData st)"
  shows "updateTemplateScript g env st
           = (st\<lparr> fs_templateScriptData :=
                    (fs_templateScriptData st)\<lparr> projectVersion := getProjectVersion env \<rparr> \<rparr>,
              False)"
  using assms
  by (simp add: updateTemplateScript_def Let_def eqSet_iff harvested_def name_sets_def)

lemma updateTemplateScript_changed:
  assumes "projectVersion (fs_templateScriptData st) \<noteq> getProjectVersion env"
    and "map set (harvested env) \<noteq> name_sets (fs_templateScriptData st)"
  shows "updateTemplateScript g env st
           = (virtualTemplateGen_update g
                (st\<lparr> fs_templateScriptData :=
                       (fs_templateScriptData st)
                         \<lparr> projectVersion := getProjectVersion env,
                           tsd_context := harvested env ! 0,
                           tsd_components := harvested env ! 1,
                           tsd_props := harvested env ! 2,
                           tsd_setupReturns := harvested env ! 3,
                           tsd_htmlElements := harvested env ! 4,
                           tsd_componentItems :=
                             complete_at env (st_Components (searchTexts env)),
                           tsd_htmlElementItems :=
                             complete_at env (st_HtmlElements (searchTexts env)) \<rparr> \<rparr>),
              True)"
  using assms
  by (auto simp: updateTemplateScript_def Let_def eqSet_iff harvested_def name_sets_def)


text \<open>
  C6. \<^verbatim>\<open>updateTemplateScript\<close>: when the stored project version equals the engine's, it
  returns false and the state is unchanged. When the versions differ and each of the five
  harvested name lists (context, components, props, setup returns, html elements) has
  the same set of names as the stored one, it returns false, the five name lists and the
  template script stay as they are, \<^verbatim>\<open>virtualTemplateGen.update()\<close> is not called, and
  the stored version becomes the engine's. When the versions differ and some set differs,
  it returns true, the five name lists are the harvested ones,
  \<^verbatim>\<open>virtualTemplateGen.update()\<close> is called once, on the new data, and the stored version
  becomes the engine's.
\<close>

theorem cross_reference_update:
  "(projectVersion (fs_templateScriptData st) = getProjectVersion env
      \<longrightarrow> updateTemplateScript g env st = (st, False))
   \<and> (projectVersion (fs_templateScriptData st) \<noteq> getProjectVersion env
        \<and> map set (harvested env) = name_sets (fs_templateScriptData st)
      \<longrightarrow> snd (updateTemplateScript g env st) = False
          \<and> name_lists (fs_templateScriptData (fst (updateTemplateScript g env st)))
              = name_lists (fs_templateScriptData st)
          \<and> fs_templateGen_updates (fst (updateTemplateScript g env st))
              = fs_templateGen_updates st
          \<and> fs_templateGen (fst (updateTemplateScript g env st)) = fs_templateGen st
          \<and> projectVersion (fs_templateScriptData (fst (updateTemplateScript g env st)))
              = getProjectVersion env)
   \<and> (projectVersion (fs_templateScriptData st) \<noteq> getProjectVersion env
        \<and> map set (harvested env) \<noteq> name_sets (fs_templateScriptData st)
      \<longrightarrow> snd (updateTemplateScript g env st) = True
          \<and> name_lists (fs_templateScriptData (fst (updateTemplateScript g env st)))
              = harvested env
          \<and> fs_templateGen_updates (fst (updateTemplateScript g env st))
              = fs_templateGen_updates st + 1
          \<and> fs_templateGen (fst (updateTemplateScript g env st))
              = regenerate (template_script_uri g)
                  (generate_template_script g (fs_descriptor st)
                     (fs_templateScriptData (fst (updateTemplateScript g env st))))
                  (fs_templateGen st)
          \<and> projectVersion (fs_templateScriptData (fst (updateTemplateScript g env st)))
              = getProjectVersion env)"
proof -
  have a: "projectVersion (fs_templateScriptData st) = getProjectVersion env
      \<longrightarrow> updateTemplateScript g env st = (st, False)"
    by (simp add: updateTemplateScript_same_version)
  have b: "snd (updateTemplateScript g env st) = False
          \<and> name_lists (fs_templateScriptData (fst (updateTemplateScript g env st)))
              = name_lists (fs_templateScriptData st)
          \<and> fs_templateGen_updates (fst (updateTemplateScript g env st))
              = fs_templateGen_updates st
          \<and> fs_templateGen (fst (updateTemplateScript g env st)) = fs_templateGen st
          \<and> projectVersion (fs_templateScriptData (fst (updateTemplateScript g env st)))
              = getProjectVersion env"
    if "projectVersion (fs_templateScriptData st) \<noteq> getProjectVersion env"
      "map set (harvested env) = name_sets (fs_templateScriptData st)"
    unfolding updateTemplateScript_same_sets[OF that]
    by (simp add: name_lists_def)
  have c: "snd (updateTemplateScript g env st) = True
          \<and> name_lists (fs_templateScriptData (fst (updateTemplateScript g env st)))
              = harvested env
          \<and> fs_templateGen_updates (fst (updateTemplateScript g env st))
              = fs_templateGen_updates st + 1
          \<and> fs_templateGen (fst (updateTemplateScript g env st))
              = regenerate (template_script_uri g)
                  (generate_template_script g (fs_descriptor st)
                     (fs_templateScriptData (fst (updateTemplateScript g env st))))
                  (fs_templateGen st)
          \<and> projectVersion (fs_templateScriptData (fst (updateTemplateScript g env st)))
              = getProjectVersion env"
    if "projectVersion (fs_templateScriptData st) \<noteq> getProjectVersion env"
      "map set (harvested env) \<noteq> name_sets (fs_templateScriptData st)"
    unfolding updateTemplateScript_changed[OF that]
    by (simp add: name_lists_def virtualTemplateGen_update_def harvested_def)
  from a b c show ?thesis by blast
qed

lemma example_harvested:
  "harvested (example_cross_env v) = [[''msg''], [''Foo'', ''Foo''], [], [], []]"
  by (simp add: harvested_def complete_at_def example_cross_env_def example_search_texts_def
      indexOf_def example_position_at_def Let_def)


theorem cross_reference_update_witness:
  "projectVersion (fs_templateScriptData initial_file_state)
     = getProjectVersion (example_cross_env None)
   \<and> updateTemplateScript example_generators (example_cross_env None) initial_file_state
       = (initial_file_state, False)
   \<and> projectVersion (fs_templateScriptData initial_file_state)
       \<noteq> getProjectVersion (example_cross_env (Some ''1''))
   \<and> map set (harvested (example_cross_env (Some ''1'')))
       \<noteq> name_sets (fs_templateScriptData initial_file_state)
   \<and> snd (updateTemplateScript example_generators (example_cross_env (Some ''1''))
            initial_file_state) = True
   \<and> name_lists (fs_templateScriptData (fst (updateTemplateScript example_generators
        (example_cross_env (Some ''1'')) initial_file_state)))
       = [[''msg''], [''Foo'', ''Foo''], [], [], []]
   \<and> fs_templateGen_updates (fst (updateTemplateScript example_generators
        (example_cross_env (Some ''1'')) initial_file_state)) = 1
   \<and> projectVersion (fs_templateScriptData example_cross_state)
       \<noteq> getProjectVersion (example_cross_env (Some ''2''))
   \<and> map set (harvested (example_cross_env (Some ''2'')))
       = name_sets (fs_templateScriptData example_cross_state)
   \<and> snd (updateTemplateScript example_generators (example_cross_env (Some ''2''))
            example_cross_state) = False
   \<and> name_lists (fs_templateScriptData (fst (updateTemplateScript example_generators
        (example_cross_env (Some ''2'')) example_cross_state)))
       = [[''msg''], [''Foo''], [], [], []]
   \<and> fs_templateGen_updates (fst (updateTemplateScript example_generators
        (example_cross_env (Some ''2'')) example_cross_state)) = 0"
proof -
  have 1: "projectVersion (fs_templateScriptData initial_file_state)
     = getProjectVersion (example_cross_env None)"
    by (simp add: initial_file_state_def example_cross_env_def)
  have 2: "projectVersion (fs_templateScriptData initial_file_state)
       \<noteq> getProjectVersion (example_cross_env (Some ''1''))"
    by (simp add: initial_file_state_def example_cross_env_def)
  have 3: "map set (harvested (example_cross_env (Some ''1'')))
       \<noteq> name_sets (fs_templateScriptData initial_file_state)"
    by (simp add: example_harvested name_sets_def initial_file_state_def)
  have 4: "projectVersion (fs_templateScriptData example_cross_state)
       \<noteq> getProjectVersion (example_cross_env (Some ''2''))"
    by (simp add: example_cross_state_def example_cross_data_def example_cross_env_def)
  have 5: "map set (harvested (example_cross_env (Some ''2'')))
       = name_sets (fs_templateScriptData example_cross_state)"
    by (simp add: example_harvested name_sets_def example_cross_state_def example_cross_data_def)
  have 6: "name_lists (fs_templateScriptData example_cross_state)
             = [[''msg''], [''Foo''], [], [], []]"
    "fs_templateGen_updates example_cross_state = 0"
    "fs_templateGen_updates initial_file_state = 0"
    by (simp_all add: name_lists_def example_cross_state_def example_cross_data_def
        initial_file_state_def)
  from cross_reference_update[of initial_file_state "example_cross_env None" example_generators]
    cross_reference_update[of initial_file_state "example_cross_env (Some ''1'')"
      example_generators]
    cross_reference_update[of example_cross_state "example_cross_env (Some ''2'')"
      example_generators]
    1 2 3 4 5
  show ?thesis
    by (simp add: example_harvested 6)
qed


section \<open>The ref sugar command (\<^verbatim>\<open>register\<close>, the \<^verbatim>\<open>SWITCH_REF_SUGAR\<close> branch)\<close>

subsection \<open>Documents, edits and parse data\<close>

text \<open>
  In this section a position of the document is represented by its offset:
  \<^verbatim>\<open>document.positionAt\<close> and \<^verbatim>\<open>document.offsetAt\<close> convert between the two without loss
  for the offsets of the text, and \<^verbatim>\<open>positionAt\<close> clamps a larger offset to the length.
  A range is a pair of positions, a \<^verbatim>\<open>TextEdit\<close> a range and the new text.
\<close>

definition clamp_offset :: "string \<Rightarrow> nat \<Rightarrow> nat" where
  "clamp_offset docText off = min off (length docText)"

record TextEdit =
  te_start :: nat
  te_end :: nat
  te_newText :: string

definition TextEdit_replace :: "nat \<times> nat \<Rightarrow> string \<Rightarrow> TextEdit" where
  "TextEdit_replace r new = \<lparr> te_start = fst r, te_end = snd r, te_newText = new \<rparr>"

record Location =
  l_uri :: string
  l_range :: "nat \<times> nat"

text \<open>\<^verbatim>\<open>String.prototype.substr(start, length)\<close> on natural numbers.\<close>

definition substr :: "string \<Rightarrow> nat \<Rightarrow> nat \<Rightarrow> string" where
  "substr s a n = take n (drop a s)"

text \<open>
  The data of \<^verbatim>\<open>sourceFile.getScriptSetupData()\<close>, which the script-setup generator
  (\<^verbatim>\<open>virtuals/script\<close>, not among the sources) computes: for each labelled declaration
  the range of the label, the range of the right-hand side and the ranges of the declared
  variables; for each \<^verbatim>\<open>ref(...)\<close> declaration its range, the ranges of its left-hand side
  and of the call's argument and of the declared variables. The offsets are relative to
  the start of the script-setup block.
\<close>

record TextRange =
  r_start :: nat
  r_end :: nat

record LabelRight =
  right_start :: nat
  right_end :: nat
  isComputedCall :: bool

record Label =
  label_label :: TextRange
  label_right :: LabelRight
  label_vars :: "TextRange list"

record RefCall =
  rc_start :: nat
  rc_end :: nat
  rc_vars :: "TextRange list"
  rc_left :: TextRange
  rc_rightExpression :: TextRange

record ScriptSetupData =
  labels :: "Label list"
  refCalls :: "RefCall list"

text \<open>
  A completion item after \<^verbatim>\<open>doCompletionResolve\<close>, by what lines 84-99 read of it; the
  edits are in the virtual script's coordinates.
\<close>

record ResolvedItem =
  ri_label :: string
  ri_importModule :: bool
  ri_additionalTextEdits :: "TextEdit list option"

text \<open>
  What the command reads: the document, the script-setup block of the descriptor (its
  \<^verbatim>\<open>loc\<close>), the parse data, \<^verbatim>\<open>_findReferences\<close> (of \<^verbatim>\<open>./references\<close>, not among the
  sources; undefined or a list of locations for a position), whether the virtual script
  has a document and a source map, the completion items at the \<^verbatim>\<open>ref\<close> marker after
  resolution, and the source map's \<^verbatim>\<open>targetToSource\<close>.
\<close>

record sugar_env =
  document_uri :: string
  document_text :: string
  desc_scriptSetup :: "(nat \<times> nat) option"
  genData :: "ScriptSetupData option"
  findReferences_at :: "nat \<Rightarrow> Location list option"
  virtualScript_present :: bool
  resolved_items :: "ResolvedItem list"
  targetToSource :: "nat \<times> nat \<Rightarrow> (nat \<times> nat) option"

subsection \<open>The edits\<close>

text \<open>Lines 57-76: the edits for the references of one variable, without the sugar.\<close>

definition unuse_reference_edits ::
  "sugar_env \<Rightarrow> nat \<Rightarrow> nat \<Rightarrow> TextRange \<Rightarrow> string \<Rightarrow> Location \<Rightarrow> TextEdit list"
where
  "unuse_reference_edits env ss se var varText reference =
     (if l_uri reference \<noteq> document_uri env then []
      else
        let refernceRange = l_range reference in
        if fst refernceRange = ss + r_start var \<and> snd refernceRange = ss + r_end var then []
        else if fst refernceRange \<ge> ss \<and> snd refernceRange \<le> se then
          (let referenceText = substring (document_text env) (fst refernceRange) (snd refernceRange);
               isRaw = (''$'' @ varText = referenceText)
           in if isRaw then [TextEdit_replace (l_range reference) varText]
              else [TextEdit_replace (l_range reference) (varText @ ''.value'')])
        else [])"

text \<open>Lines 50-77 and 117-146: the loop over the variables, for either direction.\<close>

definition var_edits ::
  "sugar_env \<Rightarrow> nat \<Rightarrow> TextRange list
     \<Rightarrow> (TextRange \<Rightarrow> string \<Rightarrow> Location \<Rightarrow> TextEdit list) \<Rightarrow> TextEdit list"
where
  "var_edits env ss vars per_reference =
     concat (map (\<lambda>var.
       let varRange = (clamp_offset (document_text env) (ss + r_start var),
                       clamp_offset (document_text env) (ss + r_end var));
           varText = substring (document_text env) (fst varRange) (snd varRange);
           references = (case findReferences_at env (fst varRange) of
                           None \<Rightarrow> [] | Some rs \<Rightarrow> rs)
       in concat (map (per_reference var varText) references))
       vars)"

text \<open>Lines 35-78: the edits for one label.\<close>

definition unuse_label_edits :: "sugar_env \<Rightarrow> nat \<Rightarrow> nat \<Rightarrow> Label \<Rightarrow> TextEdit list" where
  "unuse_label_edits env ss se lbl =
     [TextEdit_replace
        (clamp_offset (document_text env) (ss + r_start (label_label lbl)),
         clamp_offset (document_text env) (ss + r_end (label_label lbl) + 1)) ''const'']
     @ (if \<not> isComputedCall (label_right lbl) then
          [TextEdit_replace
             (clamp_offset (document_text env) (ss + right_start (label_right lbl)),
              clamp_offset (document_text env) (ss + right_start (label_right lbl))) ''ref('',
           TextEdit_replace
             (clamp_offset (document_text env) (ss + right_end (label_right lbl)),
              clamp_offset (document_text env) (ss + right_end (label_right lbl))) '')'']
        else [])
     @ var_edits env ss (label_vars lbl) (unuse_reference_edits env ss se)"

text \<open>Lines 83-100: the edits that import \<^verbatim>\<open>ref\<close>.\<close>

definition import_edits :: "sugar_env \<Rightarrow> TextEdit list" where
  "import_edits env =
     concat (map (\<lambda>item.
       if ri_label item \<noteq> ''ref'' then []
       else if \<not> ri_importModule item then []
       else (case ri_additionalTextEdits item of
               None \<Rightarrow> []
             | Some edits \<Rightarrow>
                 concat (map (\<lambda>edit.
                   case targetToSource env (te_start edit, te_end edit) of
                     None \<Rightarrow> []
                   | Some vueRange \<Rightarrow>
                       [\<lparr> te_start = fst vueRange, te_end = snd vueRange,
                          te_newText = te_newText edit \<rparr>])
                   edits)))
       (resolved_items env))"

text \<open>Lines 124-145: the edits for the references of one variable, with the sugar.\<close>

definition use_reference_edits ::
  "sugar_env \<Rightarrow> nat \<Rightarrow> nat \<Rightarrow> TextRange \<Rightarrow> string \<Rightarrow> Location \<Rightarrow> TextEdit list"
where
  "use_reference_edits env ss se var varText reference =
     (if l_uri reference \<noteq> document_uri env then []
      else
        let refernceRange = l_range reference in
        if fst refernceRange = ss + r_start var \<and> snd refernceRange = ss + r_end var then []
        else if fst refernceRange \<ge> ss \<and> snd refernceRange \<le> se then
          (let withDotValue =
                 (substr (document_text env) (snd refernceRange) (length ''.value'') = ''.value'')
           in if withDotValue then
                [TextEdit_replace
                   (fst (l_range reference),
                    clamp_offset (document_text env) (snd refernceRange + length ''.value''))
                   varText]
              else [TextEdit_replace (l_range reference) (''$'' @ varText)])
        else [])"

text \<open>Lines 104-147: the edits for one \<^verbatim>\<open>ref(...)\<close> declaration.\<close>

definition use_refCall_edits :: "sugar_env \<Rightarrow> nat \<Rightarrow> nat \<Rightarrow> RefCall \<Rightarrow> TextEdit list" where
  "use_refCall_edits env ss se refCall =
     (let left = substring (document_text env) (ss + r_start (rc_left refCall))
                   (ss + r_end (rc_left refCall));
          right = substring (document_text env) (ss + r_start (rc_rightExpression refCall))
                    (ss + r_end (rc_rightExpression refCall))
      in [TextEdit_replace
            (clamp_offset (document_text env) (ss + rc_start refCall),
             clamp_offset (document_text env) (ss + rc_end refCall))
            (''ref: '' @ left @ '' = '' @ right)]
         @ var_edits env ss (rc_vars refCall) (use_reference_edits env ss se))"

text \<open>
  Lines 27-150: the edits the command hands to \<^verbatim>\<open>connection.workspace.applyEdit\<close>, or
  nothing when it returns before that.
\<close>

definition switch_ref_sugar :: "sugar_env \<Rightarrow> TextEdit list option" where
  "switch_ref_sugar env =
     (case desc_scriptSetup env of
        None \<Rightarrow> None
      | Some (ss, se) \<Rightarrow>
          (case genData env of
             None \<Rightarrow> None
           | Some gd \<Rightarrow>
               if labels gd \<noteq> [] then
                 (let edits = concat (map (unuse_label_edits env ss se) (labels gd))
                  in if \<not> virtualScript_present env then None
                     else Some (edits @ import_edits env))
               else Some (concat (map (use_refCall_edits env ss se) (refCalls gd)))))"

subsection \<open>Applying the edits\<close>

text \<open>
  The editor applies the edits of one \<^verbatim>\<open>applyEdit\<close> together: every range refers to the
  text before the edit, the edits are taken in the order of their start (edits with the
  same start in the order of the array), and edits that overlap are refused. This is
  \<^verbatim>\<open>TextDocument.applyEdits\<close> of the language-server protocol's reference library.
\<close>

fun apply_sorted :: "string \<Rightarrow> nat \<Rightarrow> TextEdit list \<Rightarrow> string option" where
  "apply_sorted docText lastModifiedOffset [] = Some (drop lastModifiedOffset docText)"
| "apply_sorted docText lastModifiedOffset (e # es) =
     (if te_start e < lastModifiedOffset then None
      else case apply_sorted docText (te_end e) es of
             None \<Rightarrow> None
           | Some rest \<Rightarrow>
               Some (substring docText lastModifiedOffset (te_start e) @ te_newText e @ rest))"

definition applyEdits :: "string \<Rightarrow> TextEdit list \<Rightarrow> string option" where
  "applyEdits docText edits = apply_sorted docText 0 (sort_key te_start edits)"

text \<open>
  The command on a document: the text after it, the same text when the command returns
  without an edit, nothing when the editor refuses the edits.
\<close>

definition toggle_ref_sugar :: "sugar_env \<Rightarrow> string option" where
  "toggle_ref_sugar env =
     (case switch_ref_sugar env of
        None \<Rightarrow> Some (document_text env)
      | Some edits \<Rightarrow> applyEdits (document_text env) edits)"

subsection \<open>Edits that replace pieces of a text\<close>

text \<open>
  A text cut into pieces that an edit keeps or replaces, with the text before, the text
  after, and the edits that make the one from the other.
\<close>

datatype piece = Keep string | Replace string string

fun piece_old :: "piece \<Rightarrow> string" where
  "piece_old (Keep s) = s"
| "piece_old (Replace old new) = old"

fun piece_new :: "piece \<Rightarrow> string" where
  "piece_new (Keep s) = s"
| "piece_new (Replace old new) = new"

fun edits_at :: "nat \<Rightarrow> piece list \<Rightarrow> TextEdit list" where
  "edits_at off [] = []"
| "edits_at off (Keep s # ps) = edits_at (off + length s) ps"
| "edits_at off (Replace old new # ps) =
     \<lparr> te_start = off, te_end = off + length old, te_newText = new \<rparr>
       # edits_at (off + length old) ps"

lemma substring_prefix_part:
  "c \<le> length pre \<Longrightarrow> substring (pre @ post) c (length pre) = drop c pre"
  by (simp add: substring_def Let_def min_def max_def)

lemma apply_sorted_pieces:
  "c \<le> length pre \<Longrightarrow>
     apply_sorted (pre @ concat (map piece_old ps)) c (edits_at (length pre) ps)
       = Some (drop c pre @ concat (map piece_new ps))"
proof (induction ps arbitrary: pre c)
  case Nil
  then show ?case by simp
next
  case (Cons p ps)
  show ?case
  proof (cases p)
    case (Keep s)
    from Cons.IH[of c "pre @ s"] Cons.prems Keep show ?thesis by simp
  next
    case (Replace old new)
    from Cons.IH[of "length (pre @ old)" "pre @ old"]
    have "apply_sorted (pre @ old @ concat (map piece_old ps)) (length pre + length old)
            (edits_at (length pre + length old) ps) = Some (concat (map piece_new ps))"
      by simp
    with Cons.prems Replace show ?thesis
      by (simp add: substring_prefix_part)
  qed
qed

lemma filter_key_distinct:
  "distinct (map f ys) \<Longrightarrow> k \<in> set ys \<Longrightarrow> filter (\<lambda>x. f k = f x) ys = [k]"
proof (induction ys)
  case Nil
  then show ?case by simp
next
  case (Cons y ys)
  show ?case
  proof (cases "k = y")
    case True
    with Cons.prems(1) have "filter (\<lambda>x. f k = f x) ys = []"
      by (auto simp: filter_empty_conv)
    with True show ?thesis by simp
  next
    case False
    with Cons.prems have "k \<in> set ys" "f k \<noteq> f y" by (auto simp: image_iff)
    with Cons show ?thesis by simp
  qed
qed

lemma sort_key_of_permutation:
  assumes "mset es = mset sorted_es"
    and "sorted_wrt (<) (map te_start sorted_es)"
  shows "sort_key te_start es = sorted_es"
proof (rule properties_for_sort_key)
  from assms(2) have sd: "sorted (map te_start sorted_es)" "distinct (map te_start sorted_es)"
    by (simp_all add: strict_sorted_iff)
  show "mset sorted_es = mset es" using assms(1) by simp
  show "sorted (map te_start sorted_es)" by (rule sd)
  fix k assume k: "k \<in> set sorted_es"
  have "mset (map te_start es) = mset (map te_start sorted_es)"
    using assms(1) by simp
  with sd(2) have d: "distinct (map te_start es)"
    by (metis mset_eq_imp_distinct_iff)
  from k assms(1) have k': "k \<in> set es"
    by (metis mset_eq_setD)
  show "filter (\<lambda>x. te_start k = te_start x) sorted_es = filter (\<lambda>x. te_start k = te_start x) es"
    using filter_key_distinct[OF sd(2) k] filter_key_distinct[OF d k'] by simp
qed


lemma mset_concat_map_permutation:
  assumes "mset xs = mset ys"
  shows "mset (concat (map f xs)) = mset (concat (map f ys))"
proof -
  have "mset (concat (map f zs)) = sum_mset (image_mset (\<lambda>z. mset (f z)) (mset zs))" for zs
    by (induction zs) simp_all
  with assms show ?thesis by simp
qed

subsection \<open>A labelled declaration and two uses of its variable\<close>

text \<open>
  The shape of a source with one labelled declaration and two later uses of its variable:
  the document before the script-setup content, the content before the declaration, the
  variable, the right-hand side, and the texts before, between and after the uses, to
  the end of the content and of the document. A use is raw when it is written with the
  sigil.
\<close>

record sugar_shape =
  sh_before :: string
  sh_lead :: string
  sh_name :: string
  sh_init :: string
  sh_gap1 :: string
  sh_raw1 :: bool
  sh_gap2 :: string
  sh_raw2 :: bool
  sh_rest :: string
  sh_after :: string

definition use_sugar :: "bool \<Rightarrow> string \<Rightarrow> string" where
  "use_sugar raw x = (if raw then ''$'' @ x else x)"

definition use_plain :: "bool \<Rightarrow> string \<Rightarrow> string" where
  "use_plain raw x = (if raw then x else x @ ''.value'')"

definition sugared :: "sugar_shape \<Rightarrow> string" where
  "sugared sh =
     sh_before sh @ sh_lead sh @ ''ref: '' @ sh_name sh @ '' = '' @ sh_init sh
     @ sh_gap1 sh @ use_sugar (sh_raw1 sh) (sh_name sh)
     @ sh_gap2 sh @ use_sugar (sh_raw2 sh) (sh_name sh)
     @ sh_rest sh @ sh_after sh"

definition desugared :: "sugar_shape \<Rightarrow> string" where
  "desugared sh =
     sh_before sh @ sh_lead sh @ ''const '' @ sh_name sh @ '' = ref('' @ sh_init sh @ '')''
     @ sh_gap1 sh @ use_plain (sh_raw1 sh) (sh_name sh)
     @ sh_gap2 sh @ use_plain (sh_raw2 sh) (sh_name sh)
     @ sh_rest sh @ sh_after sh"

definition sugar_pieces :: "sugar_shape \<Rightarrow> piece list" where
  "sugar_pieces sh =
     [Replace ''ref:'' ''const'', Keep ('' '' @ sh_name sh @ '' = ''),
      Replace [] ''ref('', Keep (sh_init sh), Replace [] '')'',
      Keep (sh_gap1 sh),
      Replace (use_sugar (sh_raw1 sh) (sh_name sh)) (use_plain (sh_raw1 sh) (sh_name sh)),
      Keep (sh_gap2 sh),
      Replace (use_sugar (sh_raw2 sh) (sh_name sh)) (use_plain (sh_raw2 sh) (sh_name sh)),
      Keep (sh_rest sh @ sh_after sh)]"

definition plain_pieces :: "sugar_shape \<Rightarrow> piece list" where
  "plain_pieces sh =
     [Replace (''const '' @ sh_name sh @ '' = ref('' @ sh_init sh @ '')'')
              (''ref: '' @ sh_name sh @ '' = '' @ sh_init sh),
      Keep (sh_gap1 sh),
      Replace (use_plain (sh_raw1 sh) (sh_name sh)) (use_sugar (sh_raw1 sh) (sh_name sh)),
      Keep (sh_gap2 sh),
      Replace (use_plain (sh_raw2 sh) (sh_name sh)) (use_sugar (sh_raw2 sh) (sh_name sh)),
      Keep (sh_rest sh @ sh_after sh)]"

lemma sugared_pieces:
  "sugared sh = (sh_before sh @ sh_lead sh) @ concat (map piece_old (sugar_pieces sh))"
  "desugared sh = (sh_before sh @ sh_lead sh) @ concat (map piece_new (sugar_pieces sh))"
  by (simp_all add: sugared_def desugared_def sugar_pieces_def)

lemma desugared_pieces:
  "desugared sh = (sh_before sh @ sh_lead sh) @ concat (map piece_old (plain_pieces sh))"
  "sugared sh = (sh_before sh @ sh_lead sh) @ concat (map piece_new (plain_pieces sh))"
  by (simp_all add: sugared_def desugared_def plain_pieces_def)

lemma applyEdits_pieces:
  assumes "mset es = mset (edits_at (length pre) ps)"
    and "sorted_wrt (<) (map te_start (edits_at (length pre) ps))"
  shows "applyEdits (pre @ concat (map piece_old ps)) es = Some (pre @ concat (map piece_new ps))"
  using apply_sorted_pieces[of 0 pre ps] sort_key_of_permutation[OF assms]
  by (simp add: applyEdits_def)


text \<open>
  The parse data and the references of a text of this shape, with the sugar and without
  it. The command's use of them fixes what they mean: the label's range is the label
  without its colon, the right-hand side is what gets wrapped in \<^verbatim>\<open>ref(\<close> and \<^verbatim>\<open>)\<close>, a
  \<^verbatim>\<open>ref(...)\<close> declaration's range is what gets replaced by \<^verbatim>\<open>ref: left = right\<close>, a
  reference's range is compared with the variable's text with and without the sigil,
  and the text after it with \<^verbatim>\<open>.value\<close>.
\<close>

definition decl_at :: "sugar_shape \<Rightarrow> nat" where
  "decl_at sh = length (sh_before sh) + length (sh_lead sh)"

definition sugar_parse :: "sugar_shape \<Rightarrow> ScriptSetupData" where
  "sugar_parse sh =
     (let a = length (sh_lead sh); n = length (sh_name sh)
      in \<lparr> labels =
             [\<lparr> label_label = \<lparr> r_start = a, r_end = a + 3 \<rparr>,
                label_right = \<lparr> right_start = a + 5 + n + 3,
                                right_end = a + 5 + n + 3 + length (sh_init sh),
                                isComputedCall = False \<rparr>,
                label_vars = [\<lparr> r_start = a + 5, r_end = a + 5 + n \<rparr>] \<rparr>],
           refCalls = [] \<rparr>)"

definition plain_parse :: "sugar_shape \<Rightarrow> ScriptSetupData" where
  "plain_parse sh =
     (let a = length (sh_lead sh); n = length (sh_name sh)
      in \<lparr> labels = [],
           refCalls =
             [\<lparr> rc_start = a,
                rc_end = a + 6 + n + 7 + length (sh_init sh) + 1,
                rc_vars = [\<lparr> r_start = a + 6, r_end = a + 6 + n \<rparr>],
                rc_left = \<lparr> r_start = a + 6, r_end = a + 6 + n \<rparr>,
                rc_rightExpression = \<lparr> r_start = a + 6 + n + 7,
                                       r_end = a + 6 + n + 7 + length (sh_init sh) \<rparr> \<rparr>] \<rparr>)"

definition sugar_use1_at :: "sugar_shape \<Rightarrow> nat" where
  "sugar_use1_at sh =
     decl_at sh + 5 + length (sh_name sh) + 3 + length (sh_init sh) + length (sh_gap1 sh)"

definition sugar_use2_at :: "sugar_shape \<Rightarrow> nat" where
  "sugar_use2_at sh =
     sugar_use1_at sh + length (use_sugar (sh_raw1 sh) (sh_name sh)) + length (sh_gap2 sh)"

definition sugar_references :: "string \<Rightarrow> sugar_shape \<Rightarrow> Location list" where
  "sugar_references u sh =
     [\<lparr> l_uri = u, l_range = (decl_at sh + 5, decl_at sh + 5 + length (sh_name sh)) \<rparr>,
      \<lparr> l_uri = u, l_range = (sugar_use1_at sh,
          sugar_use1_at sh + length (use_sugar (sh_raw1 sh) (sh_name sh))) \<rparr>,
      \<lparr> l_uri = u, l_range = (sugar_use2_at sh,
          sugar_use2_at sh + length (use_sugar (sh_raw2 sh) (sh_name sh))) \<rparr>]"

definition plain_use1_at :: "sugar_shape \<Rightarrow> nat" where
  "plain_use1_at sh =
     decl_at sh + 6 + length (sh_name sh) + 7 + length (sh_init sh) + 1 + length (sh_gap1 sh)"

definition plain_use2_at :: "sugar_shape \<Rightarrow> nat" where
  "plain_use2_at sh =
     plain_use1_at sh + length (use_plain (sh_raw1 sh) (sh_name sh)) + length (sh_gap2 sh)"

definition plain_references :: "string \<Rightarrow> sugar_shape \<Rightarrow> Location list" where
  "plain_references u sh =
     [\<lparr> l_uri = u, l_range = (decl_at sh + 6, decl_at sh + 6 + length (sh_name sh)) \<rparr>,
      \<lparr> l_uri = u, l_range = (plain_use1_at sh, plain_use1_at sh + length (sh_name sh)) \<rparr>,
      \<lparr> l_uri = u, l_range = (plain_use2_at sh, plain_use2_at sh + length (sh_name sh)) \<rparr>]"

text \<open>The end of the script-setup content, with the sugar and without it.\<close>

definition sugar_setup_end :: "sugar_shape \<Rightarrow> nat" where
  "sugar_setup_end sh = length (sugared sh) - length (sh_after sh)"

definition plain_setup_end :: "sugar_shape \<Rightarrow> nat" where
  "plain_setup_end sh = length (desugared sh) - length (sh_after sh)"

lemma substring_middle:
  "substring (pre @ mid @ post) (length pre) (length pre + length mid) = mid"
  by (simp add: substring_def Let_def min_def max_def)

lemma substring_middle':
  "a = length pre \<Longrightarrow> b = length pre + length mid \<Longrightarrow> substring (pre @ mid @ post) a b = mid"
  by (simp add: substring_middle)

lemma sugared_name:
  "substring (sugared sh) (decl_at sh + 5) (decl_at sh + 5 + length (sh_name sh)) = sh_name sh"
proof -
  have "sugared sh = (sh_before sh @ sh_lead sh @ ''ref: '') @ sh_name sh
          @ ('' = '' @ sh_init sh @ sh_gap1 sh @ use_sugar (sh_raw1 sh) (sh_name sh)
             @ sh_gap2 sh @ use_sugar (sh_raw2 sh) (sh_name sh) @ sh_rest sh @ sh_after sh)"
    by (simp add: sugared_def)
  then show ?thesis
    by (simp only:) (rule substring_middle', simp_all add: decl_at_def)
qed

lemma sugared_use1:
  "substring (sugared sh) (sugar_use1_at sh)
     (sugar_use1_at sh + length (use_sugar (sh_raw1 sh) (sh_name sh)))
   = use_sugar (sh_raw1 sh) (sh_name sh)"
proof -
  have "sugared sh = (sh_before sh @ sh_lead sh @ ''ref: '' @ sh_name sh @ '' = '' @ sh_init sh
             @ sh_gap1 sh) @ use_sugar (sh_raw1 sh) (sh_name sh)
          @ (sh_gap2 sh @ use_sugar (sh_raw2 sh) (sh_name sh) @ sh_rest sh @ sh_after sh)"
    by (simp add: sugared_def)
  then show ?thesis
    by (simp only:) (rule substring_middle', simp_all add: decl_at_def sugar_use1_at_def)
qed

lemma sugared_use2:
  "substring (sugared sh) (sugar_use2_at sh)
     (sugar_use2_at sh + length (use_sugar (sh_raw2 sh) (sh_name sh)))
   = use_sugar (sh_raw2 sh) (sh_name sh)"
proof -
  have "sugared sh = (sh_before sh @ sh_lead sh @ ''ref: '' @ sh_name sh @ '' = '' @ sh_init sh
             @ sh_gap1 sh @ use_sugar (sh_raw1 sh) (sh_name sh) @ sh_gap2 sh)
          @ use_sugar (sh_raw2 sh) (sh_name sh) @ (sh_rest sh @ sh_after sh)"
    by (simp add: sugared_def)
  then show ?thesis
    by (simp only:)
       (rule substring_middle', simp_all add: decl_at_def sugar_use1_at_def sugar_use2_at_def)
qed

lemma is_raw_iff: "(''$'' @ x = use_sugar raw x) = raw"
  by (simp add: use_sugar_def)


lemma length_sugared:
  "length (sugared sh) =
     decl_at sh + 5 + length (sh_name sh) + 3 + length (sh_init sh) + length (sh_gap1 sh)
     + length (use_sugar (sh_raw1 sh) (sh_name sh)) + length (sh_gap2 sh)
     + length (use_sugar (sh_raw2 sh) (sh_name sh)) + length (sh_rest sh) + length (sh_after sh)"
  by (simp add: sugared_def decl_at_def)

lemma length_desugared:
  "length (desugared sh) =
     decl_at sh + 6 + length (sh_name sh) + 7 + length (sh_init sh) + 1 + length (sh_gap1 sh)
     + length (use_plain (sh_raw1 sh) (sh_name sh)) + length (sh_gap2 sh)
     + length (use_plain (sh_raw2 sh) (sh_name sh)) + length (sh_rest sh) + length (sh_after sh)"
  by (simp add: desugared_def decl_at_def)

lemma unuse_reference_declaration:
  "l_range reference = (ss + r_start var, ss + r_end var)
     \<Longrightarrow> unuse_reference_edits env ss se var varText reference = []"
  by (simp add: unuse_reference_edits_def Let_def)

lemma unuse_reference_use:
  assumes "l_uri reference = document_uri env"
    and "l_range reference = (s, e)"
    and "s \<noteq> ss + r_start var"
    and "ss \<le> s" and "e \<le> se"
    and "substring (document_text env) s e = use_sugar raw x"
  shows "unuse_reference_edits env ss se var x reference
           = [\<lparr> te_start = s, te_end = e, te_newText = use_plain raw x \<rparr>]"
  using assms
  by (cases raw) (simp_all add: unuse_reference_edits_def Let_def TextEdit_replace_def
      use_plain_def use_sugar_def)

lemma sugar_edits_at:
  "edits_at (decl_at sh) (sugar_pieces sh) =
     [\<lparr> te_start = decl_at sh, te_end = decl_at sh + 4, te_newText = ''const'' \<rparr>,
      \<lparr> te_start = decl_at sh + 5 + length (sh_name sh) + 3,
        te_end = decl_at sh + 5 + length (sh_name sh) + 3, te_newText = ''ref('' \<rparr>,
      \<lparr> te_start = decl_at sh + 5 + length (sh_name sh) + 3 + length (sh_init sh),
        te_end = decl_at sh + 5 + length (sh_name sh) + 3 + length (sh_init sh),
        te_newText = '')'' \<rparr>,
      \<lparr> te_start = sugar_use1_at sh,
        te_end = sugar_use1_at sh + length (use_sugar (sh_raw1 sh) (sh_name sh)),
        te_newText = use_plain (sh_raw1 sh) (sh_name sh) \<rparr>,
      \<lparr> te_start = sugar_use2_at sh,
        te_end = sugar_use2_at sh + length (use_sugar (sh_raw2 sh) (sh_name sh)),
        te_newText = use_plain (sh_raw2 sh) (sh_name sh) \<rparr>]"
  by (simp add: sugar_pieces_def sugar_use1_at_def sugar_use2_at_def add.assoc)

lemma use_sugar_nonempty: "x \<noteq> [] \<Longrightarrow> use_sugar raw x \<noteq> []"
  by (simp add: use_sugar_def)

lemma use_plain_nonempty: "x \<noteq> [] \<Longrightarrow> use_plain raw x \<noteq> []"
  by (simp add: use_plain_def)

lemma sugar_edits_sorted:
  assumes "sh_name sh \<noteq> []" "sh_init sh \<noteq> []" "sh_gap1 sh \<noteq> []"
  shows "sorted_wrt (<) (map te_start (edits_at (decl_at sh) (sugar_pieces sh)))"
  using assms use_sugar_nonempty[of "sh_name sh" "sh_raw1 sh"]
  by (simp add: sugar_edits_at sugar_use1_at_def sugar_use2_at_def)

lemma desugar_edits:
  assumes doc: "document_text env = sugared sh"
    and blk: "desc_scriptSetup env = Some (length (sh_before sh), sugar_setup_end sh)"
    and data: "genData env = Some gd" "labels gd = labels (sugar_parse sh)"
    and refs: "findReferences_at env (decl_at sh + 5) = Some refs"
      "mset refs = mset (sugar_references (document_uri env) sh)"
    and present: "virtualScript_present env"
    and noimport: "import_edits env = []"
  shows "\<exists>es. switch_ref_sugar env = Some es
              \<and> mset es = mset (edits_at (decl_at sh) (sugar_pieces sh))"
proof -
  let ?ss = "length (sh_before sh)" and ?se = "sugar_setup_end sh"
  let ?a = "length (sh_lead sh)" and ?n = "length (sh_name sh)"
  let ?var = "\<lparr> r_start = ?a + 5, r_end = ?a + 5 + ?n \<rparr>"
  let ?g = "unuse_reference_edits env ?ss ?se ?var (sh_name sh)"
  have clamp: "clamp_offset (sugared sh) k = k" if "k \<le> length (sugared sh)" for k
    using that by (simp add: clamp_offset_def)
  have name: "substring (sugared sh) (?ss + (?a + 5)) (?ss + (?a + 5 + ?n)) = sh_name sh"
    using sugared_name[of sh] by (simp add: decl_at_def add.assoc)
  have ve: "var_edits env ?ss [?var] (unuse_reference_edits env ?ss ?se)
              = concat (map ?g refs)"
    using refs(1) name
    by (simp add: var_edits_def Let_def doc clamp length_sugared decl_at_def add.assoc)
  have decl: "?g \<lparr> l_uri = document_uri env,
                     l_range = (decl_at sh + 5, decl_at sh + 5 + ?n) \<rparr> = []"
    by (rule unuse_reference_declaration) (simp add: decl_at_def)
  have u1: "?g \<lparr> l_uri = document_uri env, l_range = (sugar_use1_at sh,
               sugar_use1_at sh + length (use_sugar (sh_raw1 sh) (sh_name sh))) \<rparr>
            = [\<lparr> te_start = sugar_use1_at sh,
                 te_end = sugar_use1_at sh + length (use_sugar (sh_raw1 sh) (sh_name sh)),
                 te_newText = use_plain (sh_raw1 sh) (sh_name sh) \<rparr>]"
  proof (rule unuse_reference_use)
    show "substring (document_text env) (sugar_use1_at sh)
            (sugar_use1_at sh + length (use_sugar (sh_raw1 sh) (sh_name sh)))
          = use_sugar (sh_raw1 sh) (sh_name sh)"
      by (simp only: doc sugared_use1)
  qed (simp_all add: sugar_use1_at_def decl_at_def sugar_setup_end_def length_sugared)
  have u2: "?g \<lparr> l_uri = document_uri env, l_range = (sugar_use2_at sh,
               sugar_use2_at sh + length (use_sugar (sh_raw2 sh) (sh_name sh))) \<rparr>
            = [\<lparr> te_start = sugar_use2_at sh,
                 te_end = sugar_use2_at sh + length (use_sugar (sh_raw2 sh) (sh_name sh)),
                 te_newText = use_plain (sh_raw2 sh) (sh_name sh) \<rparr>]"
  proof (rule unuse_reference_use)
    show "substring (document_text env) (sugar_use2_at sh)
            (sugar_use2_at sh + length (use_sugar (sh_raw2 sh) (sh_name sh)))
          = use_sugar (sh_raw2 sh) (sh_name sh)"
      by (simp only: doc sugared_use2)
  qed (simp_all add: sugar_use1_at_def sugar_use2_at_def decl_at_def sugar_setup_end_def
         length_sugared)
  have "mset (concat (map ?g refs))
          = mset (concat (map ?g (sugar_references (document_uri env) sh)))"
    using refs(2) by (rule mset_concat_map_permutation)
  also have "\<dots> = mset [\<lparr> te_start = sugar_use1_at sh,
                 te_end = sugar_use1_at sh + length (use_sugar (sh_raw1 sh) (sh_name sh)),
                 te_newText = use_plain (sh_raw1 sh) (sh_name sh) \<rparr>,
               \<lparr> te_start = sugar_use2_at sh,
                 te_end = sugar_use2_at sh + length (use_sugar (sh_raw2 sh) (sh_name sh)),
                 te_newText = use_plain (sh_raw2 sh) (sh_name sh) \<rparr>]"
    by (simp add: sugar_references_def decl u1 u2)
  finally have m: "mset (concat (map ?g refs)) = mset [\<lparr> te_start = sugar_use1_at sh,
                 te_end = sugar_use1_at sh + length (use_sugar (sh_raw1 sh) (sh_name sh)),
                 te_newText = use_plain (sh_raw1 sh) (sh_name sh) \<rparr>,
               \<lparr> te_start = sugar_use2_at sh,
                 te_end = sugar_use2_at sh + length (use_sugar (sh_raw2 sh) (sh_name sh)),
                 te_newText = use_plain (sh_raw2 sh) (sh_name sh) \<rparr>]" .
  have sw: "switch_ref_sugar env
          = Some ([\<lparr> te_start = decl_at sh, te_end = decl_at sh + 4, te_newText = ''const'' \<rparr>,
                   \<lparr> te_start = decl_at sh + 5 + ?n + 3,
                     te_end = decl_at sh + 5 + ?n + 3, te_newText = ''ref('' \<rparr>,
                   \<lparr> te_start = decl_at sh + 5 + ?n + 3 + length (sh_init sh),
                     te_end = decl_at sh + 5 + ?n + 3 + length (sh_init sh),
                     te_newText = '')'' \<rparr>] @ concat (map ?g refs))"
    using ve
    by (simp add: switch_ref_sugar_def blk data sugar_parse_def Let_def present noimport
        unuse_label_edits_def doc clamp length_sugared decl_at_def TextEdit_replace_def
        add.assoc)
  show ?thesis
    unfolding sw sugar_edits_at using m by simp
qed


lemma toggle_desugar:
  assumes shape: "sh_name sh \<noteq> []" "sh_init sh \<noteq> []" "sh_gap1 sh \<noteq> []"
    and doc: "document_text env = sugared sh"
    and blk: "desc_scriptSetup env = Some (length (sh_before sh), sugar_setup_end sh)"
    and data: "genData env = Some gd" "labels gd = labels (sugar_parse sh)"
    and refs: "findReferences_at env (decl_at sh + 5) = Some refs"
      "mset refs = mset (sugar_references (document_uri env) sh)"
    and present: "virtualScript_present env"
    and noimport: "import_edits env = []"
  shows "toggle_ref_sugar env = Some (desugared sh)"
proof -
  from desugar_edits[OF doc blk data refs present noimport]
  obtain es where es: "switch_ref_sugar env = Some es"
    "mset es = mset (edits_at (decl_at sh) (sugar_pieces sh))" by blast
  have len: "length (sh_before sh @ sh_lead sh) = decl_at sh"
    by (simp add: decl_at_def)
  have "applyEdits ((sh_before sh @ sh_lead sh) @ concat (map piece_old (sugar_pieces sh))) es
          = Some ((sh_before sh @ sh_lead sh) @ concat (map piece_new (sugar_pieces sh)))"
    by (rule applyEdits_pieces) (simp_all only: len es(2) sugar_edits_sorted[OF shape])
  then show ?thesis
    by (simp only: toggle_ref_sugar_def es(1) doc sugared_pieces[symmetric] option.case)
qed

lemma prefix_iff_take: "prefix xs ys \<longleftrightarrow> take (length xs) ys = xs"
  by (metis append_eq_conv_conj prefix_def take_is_prefix)

lemma substr_after:
  "substr (pre @ mid @ post) (length pre + length mid) n = take n post"
  by (simp add: substr_def)

lemma substr_after':
  "a = length pre + length mid \<Longrightarrow> substr (pre @ mid @ post) a n = take n post"
  by (simp add: substr_after)

lemma use_reference_declaration:
  "l_range reference = (ss + r_start var, ss + r_end var)
     \<Longrightarrow> use_reference_edits env ss se var varText reference = []"
  by (simp add: use_reference_edits_def Let_def)

lemma use_reference_use:
  assumes "l_uri reference = document_uri env"
    and "l_range reference = (s, s + length x)"
    and "s \<noteq> ss + r_start var"
    and "ss \<le> s" and "s + length x \<le> se"
    and "document_text env = pre @ x @ post" and "s = length pre"
    and "raw \<longrightarrow> \<not> prefix ''.value'' post"
    and "\<not> raw \<longrightarrow> prefix ''.value'' post"
  shows "use_reference_edits env ss se var x reference
           = [\<lparr> te_start = s, te_end = s + length (use_plain raw x),
                te_newText = use_sugar raw x \<rparr>]"
proof -
  have sub: "substr (document_text env) (s + length x) (length ''.value'')
               = take (length ''.value'') post"
    unfolding assms(6,7) by (rule substr_after)
  show ?thesis
  proof (cases raw)
    case True
    with assms(8) have "take (length ''.value'') post \<noteq> ''.value''"
      unfolding prefix_iff_take by blast
    with True assms(1-5) sub show ?thesis
      by (simp add: use_reference_edits_def Let_def TextEdit_replace_def use_plain_def
          use_sugar_def)
  next
    case False
    with assms(9) have t: "take (length ''.value'') post = ''.value''"
      unfolding prefix_iff_take by blast
    have "length ''.value'' \<le> length post"
      using arg_cong[OF t, of length] by (simp only: length_take)
    then have "clamp_offset (document_text env) (s + length x + length ''.value'')
                 = s + length x + length ''.value''"
      by (simp add: clamp_offset_def assms(6,7))
    with False assms(1-5) sub t show ?thesis
      by (simp add: use_reference_edits_def Let_def TextEdit_replace_def use_plain_def
          use_sugar_def)
  qed
qed


lemma desugared_name:
  "substring (desugared sh) (decl_at sh + 6) (decl_at sh + 6 + length (sh_name sh)) = sh_name sh"
proof -
  have "desugared sh = (sh_before sh @ sh_lead sh @ ''const '') @ sh_name sh
          @ ('' = ref('' @ sh_init sh @ '')'' @ sh_gap1 sh @ use_plain (sh_raw1 sh) (sh_name sh)
             @ sh_gap2 sh @ use_plain (sh_raw2 sh) (sh_name sh) @ sh_rest sh @ sh_after sh)"
    by (simp add: desugared_def)
  then show ?thesis
    by (simp only:) (rule substring_middle', simp_all add: decl_at_def)
qed

lemma desugared_init:
  "substring (desugared sh) (decl_at sh + 6 + length (sh_name sh) + 7)
     (decl_at sh + 6 + length (sh_name sh) + 7 + length (sh_init sh)) = sh_init sh"
proof -
  have "desugared sh = (sh_before sh @ sh_lead sh @ ''const '' @ sh_name sh @ '' = ref('')
          @ sh_init sh
          @ ('')'' @ sh_gap1 sh @ use_plain (sh_raw1 sh) (sh_name sh)
             @ sh_gap2 sh @ use_plain (sh_raw2 sh) (sh_name sh) @ sh_rest sh @ sh_after sh)"
    by (simp add: desugared_def)
  then show ?thesis
    by (simp only:) (rule substring_middle', simp_all add: decl_at_def)
qed

lemma use_plain_split: "use_plain raw x = x @ (if raw then [] else ''.value'')"
  by (simp add: use_plain_def)

lemma desugared_use1:
  "desugared sh =
     (sh_before sh @ sh_lead sh @ ''const '' @ sh_name sh @ '' = ref('' @ sh_init sh @ '')''
        @ sh_gap1 sh)
     @ sh_name sh
     @ ((if sh_raw1 sh then [] else ''.value'') @ sh_gap2 sh
        @ use_plain (sh_raw2 sh) (sh_name sh) @ sh_rest sh @ sh_after sh)"
  by (simp add: desugared_def use_plain_split[of "sh_raw1 sh"])

lemma desugared_use2:
  "desugared sh =
     (sh_before sh @ sh_lead sh @ ''const '' @ sh_name sh @ '' = ref('' @ sh_init sh @ '')''
        @ sh_gap1 sh @ use_plain (sh_raw1 sh) (sh_name sh) @ sh_gap2 sh)
     @ sh_name sh
     @ ((if sh_raw2 sh then [] else ''.value'') @ sh_rest sh @ sh_after sh)"
  by (simp add: desugared_def use_plain_split[of "sh_raw2 sh"])

lemma length_use_plain: "length (use_plain raw x) = length x + (if raw then 0 else 6)"
  by (simp add: use_plain_def)

lemma plain_edits_at:
  "edits_at (decl_at sh) (plain_pieces sh) =
     [\<lparr> te_start = decl_at sh,
        te_end = decl_at sh + 6 + length (sh_name sh) + 7 + length (sh_init sh) + 1,
        te_newText = ''ref: '' @ sh_name sh @ '' = '' @ sh_init sh \<rparr>,
      \<lparr> te_start = plain_use1_at sh,
        te_end = plain_use1_at sh + length (use_plain (sh_raw1 sh) (sh_name sh)),
        te_newText = use_sugar (sh_raw1 sh) (sh_name sh) \<rparr>,
      \<lparr> te_start = plain_use2_at sh,
        te_end = plain_use2_at sh + length (use_plain (sh_raw2 sh) (sh_name sh)),
        te_newText = use_sugar (sh_raw2 sh) (sh_name sh) \<rparr>]"
  by (simp add: plain_pieces_def plain_use1_at_def plain_use2_at_def add.assoc)

lemma plain_edits_sorted:
  assumes "sh_name sh \<noteq> []"
  shows "sorted_wrt (<) (map te_start (edits_at (decl_at sh) (plain_pieces sh)))"
  using assms use_plain_nonempty[of "sh_name sh" "sh_raw1 sh"]
  by (simp add: plain_edits_at plain_use1_at_def plain_use2_at_def)

lemma resugar_edits:
  assumes dot1: "sh_raw1 sh \<longrightarrow> \<not> prefix ''.value''
                   (sh_gap2 sh @ use_plain (sh_raw2 sh) (sh_name sh) @ sh_rest sh @ sh_after sh)"
    and dot2: "sh_raw2 sh \<longrightarrow> \<not> prefix ''.value'' (sh_rest sh @ sh_after sh)"
    and doc: "document_text env = desugared sh"
    and blk: "desc_scriptSetup env = Some (length (sh_before sh), plain_setup_end sh)"
    and data: "genData env = Some gd" "labels gd = []" "refCalls gd = refCalls (plain_parse sh)"
    and refs: "findReferences_at env (decl_at sh + 6) = Some refs"
      "mset refs = mset (plain_references (document_uri env) sh)"
  shows "\<exists>es. switch_ref_sugar env = Some es
              \<and> mset es = mset (edits_at (decl_at sh) (plain_pieces sh))"
proof -
  let ?ss = "length (sh_before sh)" and ?se = "plain_setup_end sh"
  let ?a = "length (sh_lead sh)" and ?n = "length (sh_name sh)"
  let ?var = "\<lparr> r_start = ?a + 6, r_end = ?a + 6 + ?n \<rparr>"
  let ?g = "use_reference_edits env ?ss ?se ?var (sh_name sh)"
  have clamp: "clamp_offset (desugared sh) k = k" if "k \<le> length (desugared sh)" for k
    using that by (simp add: clamp_offset_def)
  have name: "substring (desugared sh) (?ss + (?a + 6)) (?ss + (?a + 6 + ?n)) = sh_name sh"
    using desugared_name[of sh] by (simp add: decl_at_def add.assoc)
  have init: "substring (desugared sh) (?ss + (?a + 6 + ?n + 7))
                (?ss + (?a + 6 + ?n + 7 + length (sh_init sh))) = sh_init sh"
    using desugared_init[of sh] by (simp add: decl_at_def add.assoc)
  have ve: "var_edits env ?ss [?var] (use_reference_edits env ?ss ?se)
              = concat (map ?g refs)"
    using refs(1) name
    by (simp add: var_edits_def Let_def doc clamp length_desugared decl_at_def add.assoc)
  have decl: "?g \<lparr> l_uri = document_uri env,
                     l_range = (decl_at sh + 6, decl_at sh + 6 + ?n) \<rparr> = []"
    by (rule use_reference_declaration) (simp add: decl_at_def)
  have u1: "?g \<lparr> l_uri = document_uri env,
                   l_range = (plain_use1_at sh, plain_use1_at sh + ?n) \<rparr>
            = [\<lparr> te_start = plain_use1_at sh,
                 te_end = plain_use1_at sh + length (use_plain (sh_raw1 sh) (sh_name sh)),
                 te_newText = use_sugar (sh_raw1 sh) (sh_name sh) \<rparr>]"
  proof (rule use_reference_use)
    show "document_text env =
       (sh_before sh @ sh_lead sh @ ''const '' @ sh_name sh @ '' = ref('' @ sh_init sh @ '')''
          @ sh_gap1 sh)
       @ sh_name sh
       @ ((if sh_raw1 sh then [] else ''.value'') @ sh_gap2 sh
          @ use_plain (sh_raw2 sh) (sh_name sh) @ sh_rest sh @ sh_after sh)"
      unfolding doc by (rule desugared_use1)
    show "sh_raw1 sh \<longrightarrow> \<not> prefix ''.value''
            ((if sh_raw1 sh then [] else ''.value'') @ sh_gap2 sh
              @ use_plain (sh_raw2 sh) (sh_name sh) @ sh_rest sh @ sh_after sh)"
      using dot1 by simp
    show "\<not> sh_raw1 sh \<longrightarrow> prefix ''.value''
            ((if sh_raw1 sh then [] else ''.value'') @ sh_gap2 sh
              @ use_plain (sh_raw2 sh) (sh_name sh) @ sh_rest sh @ sh_after sh)"
      by simp
  qed (simp_all add: plain_use1_at_def decl_at_def plain_setup_end_def length_desugared
         length_use_plain)
  have u2: "?g \<lparr> l_uri = document_uri env,
                   l_range = (plain_use2_at sh, plain_use2_at sh + ?n) \<rparr>
            = [\<lparr> te_start = plain_use2_at sh,
                 te_end = plain_use2_at sh + length (use_plain (sh_raw2 sh) (sh_name sh)),
                 te_newText = use_sugar (sh_raw2 sh) (sh_name sh) \<rparr>]"
  proof (rule use_reference_use)
    show "document_text env =
       (sh_before sh @ sh_lead sh @ ''const '' @ sh_name sh @ '' = ref('' @ sh_init sh @ '')''
          @ sh_gap1 sh @ use_plain (sh_raw1 sh) (sh_name sh) @ sh_gap2 sh)
       @ sh_name sh
       @ ((if sh_raw2 sh then [] else ''.value'') @ sh_rest sh @ sh_after sh)"
      unfolding doc by (rule desugared_use2)
    show "sh_raw2 sh \<longrightarrow> \<not> prefix ''.value''
            ((if sh_raw2 sh then [] else ''.value'') @ sh_rest sh @ sh_after sh)"
      using dot2 by simp
    show "\<not> sh_raw2 sh \<longrightarrow> prefix ''.value''
            ((if sh_raw2 sh then [] else ''.value'') @ sh_rest sh @ sh_after sh)"
      by simp
  qed (simp_all add: plain_use1_at_def plain_use2_at_def decl_at_def plain_setup_end_def
         length_desugared length_use_plain)
  have "mset (concat (map ?g refs))
          = mset (concat (map ?g (plain_references (document_uri env) sh)))"
    using refs(2) by (rule mset_concat_map_permutation)
  also have "\<dots> = mset [\<lparr> te_start = plain_use1_at sh,
                 te_end = plain_use1_at sh + length (use_plain (sh_raw1 sh) (sh_name sh)),
                 te_newText = use_sugar (sh_raw1 sh) (sh_name sh) \<rparr>,
               \<lparr> te_start = plain_use2_at sh,
                 te_end = plain_use2_at sh + length (use_plain (sh_raw2 sh) (sh_name sh)),
                 te_newText = use_sugar (sh_raw2 sh) (sh_name sh) \<rparr>]"
    by (simp add: plain_references_def decl u1 u2)
  finally have m: "mset (concat (map ?g refs)) = mset [\<lparr> te_start = plain_use1_at sh,
                 te_end = plain_use1_at sh + length (use_plain (sh_raw1 sh) (sh_name sh)),
                 te_newText = use_sugar (sh_raw1 sh) (sh_name sh) \<rparr>,
               \<lparr> te_start = plain_use2_at sh,
                 te_end = plain_use2_at sh + length (use_plain (sh_raw2 sh) (sh_name sh)),
                 te_newText = use_sugar (sh_raw2 sh) (sh_name sh) \<rparr>]" .
  have sw: "switch_ref_sugar env
          = Some (\<lparr> te_start = decl_at sh,
                    te_end = decl_at sh + 6 + ?n + 7 + length (sh_init sh) + 1,
                    te_newText = ''ref: '' @ sh_name sh @ '' = '' @ sh_init sh \<rparr>
                  # concat (map ?g refs))"
    using ve name init
    by (simp add: switch_ref_sugar_def blk data plain_parse_def Let_def
        use_refCall_edits_def doc clamp length_desugared decl_at_def TextEdit_replace_def
        add.assoc)
  show ?thesis
    unfolding sw plain_edits_at using m by simp
qed

lemma toggle_resugar:
  assumes shape: "sh_name sh \<noteq> []"
    and dot1: "sh_raw1 sh \<longrightarrow> \<not> prefix ''.value''
                   (sh_gap2 sh @ use_plain (sh_raw2 sh) (sh_name sh) @ sh_rest sh @ sh_after sh)"
    and dot2: "sh_raw2 sh \<longrightarrow> \<not> prefix ''.value'' (sh_rest sh @ sh_after sh)"
    and doc: "document_text env = desugared sh"
    and blk: "desc_scriptSetup env = Some (length (sh_before sh), plain_setup_end sh)"
    and data: "genData env = Some gd" "labels gd = []" "refCalls gd = refCalls (plain_parse sh)"
    and refs: "findReferences_at env (decl_at sh + 6) = Some refs"
      "mset refs = mset (plain_references (document_uri env) sh)"
  shows "toggle_ref_sugar env = Some (sugared sh)"
proof -
  from resugar_edits[OF dot1 dot2 doc blk data refs]
  obtain es where es: "switch_ref_sugar env = Some es"
    "mset es = mset (edits_at (decl_at sh) (plain_pieces sh))" by blast
  have len: "length (sh_before sh @ sh_lead sh) = decl_at sh"
    by (simp add: decl_at_def)
  have "applyEdits ((sh_before sh @ sh_lead sh) @ concat (map piece_old (plain_pieces sh))) es
          = Some ((sh_before sh @ sh_lead sh) @ concat (map piece_new (plain_pieces sh)))"
    by (rule applyEdits_pieces) (simp_all only: len es(2) plain_edits_sorted[OF shape])
  then show ?thesis
    by (simp only: toggle_ref_sugar_def es(1) doc desugared_pieces[symmetric] option.case)
qed


subsection \<open>Toggling twice\<close>

definition example_shape :: sugar_shape where
  "example_shape =
     \<lparr> sh_before = ''<script setup>'', sh_lead = [], sh_name = ''x'', sh_init = ''ref(1)'',
       sh_gap1 = '';f('', sh_raw1 = False, sh_gap2 = '');g('', sh_raw2 = True,
       sh_rest = '')'', sh_after = ''</script>'' \<rparr>"

definition example_sugar_env :: sugar_env where
  "example_sugar_env =
     \<lparr> document_uri = ''file.vue'',
       document_text = ''<script setup>ref: x = ref(1);f(x);g($x)</script>'',
       desc_scriptSetup = Some (14, 40),
       genData = Some \<lparr> labels = [\<lparr> label_label = \<lparr> r_start = 0, r_end = 3 \<rparr>,
                                     label_right = \<lparr> right_start = 9, right_end = 15,
                                                     isComputedCall = False \<rparr>,
                                     label_vars = [\<lparr> r_start = 5, r_end = 6 \<rparr>] \<rparr>],
                        refCalls = [] \<rparr>,
       findReferences_at = (\<lambda>p. if p = 19
          then Some [\<lparr> l_uri = ''file.vue'', l_range = (19, 20) \<rparr>,
                     \<lparr> l_uri = ''file.vue'', l_range = (37, 39) \<rparr>,
                     \<lparr> l_uri = ''file.vue'', l_range = (32, 33) \<rparr>]
          else None),
       virtualScript_present = True,
       resolved_items = [\<lparr> ri_label = ''ref'', ri_importModule = False,
                           ri_additionalTextEdits = None \<rparr>],
       targetToSource = (\<lambda>r. None) \<rparr>"

definition example_plain_env :: sugar_env where
  "example_plain_env =
     \<lparr> document_uri = ''file.vue'',
       document_text = ''<script setup>const x = ref(ref(1));f(x.value);g(x)</script>'',
       desc_scriptSetup = Some (14, 51),
       genData = Some \<lparr> labels = [],
                        refCalls = [\<lparr> rc_start = 0, rc_end = 21,
                                       rc_vars = [\<lparr> r_start = 6, r_end = 7 \<rparr>],
                                       rc_left = \<lparr> r_start = 6, r_end = 7 \<rparr>,
                                       rc_rightExpression = \<lparr> r_start = 14, r_end = 20 \<rparr> \<rparr>] \<rparr>,
       findReferences_at = (\<lambda>p. if p = 20
          then Some [\<lparr> l_uri = ''file.vue'', l_range = (38, 39) \<rparr>,
                     \<lparr> l_uri = ''file.vue'', l_range = (20, 21) \<rparr>,
                     \<lparr> l_uri = ''file.vue'', l_range = (49, 50) \<rparr>]
          else None),
       virtualScript_present = True,
       resolved_items = [],
       targetToSource = (\<lambda>r. None) \<rparr>"

definition accessor_sugar_env :: sugar_env where
  "accessor_sugar_env =
     \<lparr> document_uri = ''file.vue'',
       document_text = ''<script setup>ref: x = ref(1);f(x);g($x.value)</script>'',
       desc_scriptSetup = Some (14, 46),
       genData = Some \<lparr> labels = [\<lparr> label_label = \<lparr> r_start = 0, r_end = 3 \<rparr>,
                                     label_right = \<lparr> right_start = 9, right_end = 15,
                                                     isComputedCall = False \<rparr>,
                                     label_vars = [\<lparr> r_start = 5, r_end = 6 \<rparr>] \<rparr>],
                        refCalls = [] \<rparr>,
       findReferences_at = (\<lambda>p. if p = 19
          then Some [\<lparr> l_uri = ''file.vue'', l_range = (19, 20) \<rparr>,
                     \<lparr> l_uri = ''file.vue'', l_range = (32, 33) \<rparr>,
                     \<lparr> l_uri = ''file.vue'', l_range = (37, 39) \<rparr>]
          else None),
       virtualScript_present = True,
       resolved_items = [\<lparr> ri_label = ''ref'', ri_importModule = False,
                           ri_additionalTextEdits = None \<rparr>],
       targetToSource = (\<lambda>r. None) \<rparr>"

definition accessor_plain_env :: sugar_env where
  "accessor_plain_env =
     \<lparr> document_uri = ''file.vue'',
       document_text = ''<script setup>const x = ref(ref(1));f(x.value);g(x.value)</script>'',
       desc_scriptSetup = Some (14, 57),
       genData = Some \<lparr> labels = [],
                        refCalls = [\<lparr> rc_start = 0, rc_end = 21,
                                       rc_vars = [\<lparr> r_start = 6, r_end = 7 \<rparr>],
                                       rc_left = \<lparr> r_start = 6, r_end = 7 \<rparr>,
                                       rc_rightExpression = \<lparr> r_start = 14, r_end = 20 \<rparr> \<rparr>] \<rparr>,
       findReferences_at = (\<lambda>p. if p = 20
          then Some [\<lparr> l_uri = ''file.vue'', l_range = (20, 21) \<rparr>,
                     \<lparr> l_uri = ''file.vue'', l_range = (38, 39) \<rparr>,
                     \<lparr> l_uri = ''file.vue'', l_range = (49, 50) \<rparr>]
          else None),
       virtualScript_present = True,
       resolved_items = [],
       targetToSource = (\<lambda>r. None) \<rparr>"

definition import_sugar_env :: sugar_env where
  "import_sugar_env =
     \<lparr> document_uri = ''file.vue'',
       document_text = ''<script setup> ref: x = ref(1);f(x);g($x)</script>'',
       desc_scriptSetup = Some (14, 41),
       genData = Some \<lparr> labels = [\<lparr> label_label = \<lparr> r_start = 1, r_end = 4 \<rparr>,
                                     label_right = \<lparr> right_start = 10, right_end = 16,
                                                     isComputedCall = False \<rparr>,
                                     label_vars = [\<lparr> r_start = 6, r_end = 7 \<rparr>] \<rparr>],
                        refCalls = [] \<rparr>,
       findReferences_at = (\<lambda>p. if p = 20
          then Some [\<lparr> l_uri = ''file.vue'', l_range = (20, 21) \<rparr>,
                     \<lparr> l_uri = ''file.vue'', l_range = (33, 34) \<rparr>,
                     \<lparr> l_uri = ''file.vue'', l_range = (38, 40) \<rparr>]
          else None),
       virtualScript_present = True,
       resolved_items = [\<lparr> ri_label = ''ref'', ri_importModule = True,
                           ri_additionalTextEdits =
                             Some [\<lparr> te_start = 0, te_end = 0,
                                     te_newText = ''import { ref } from 'vue';'' \<rparr>] \<rparr>],
       targetToSource = (\<lambda>r. if r = (0, 0) then Some (14, 14) else None) \<rparr>"

definition import_plain_env :: sugar_env where
  "import_plain_env =
     \<lparr> document_uri = ''file.vue'',
       document_text =
         ''<script setup>import { ref } from 'vue'; const x = ref(ref(1));f(x.value);g(x)</script>'',
       desc_scriptSetup = Some (14, 78),
       genData = Some \<lparr> labels = [],
                        refCalls = [\<lparr> rc_start = 27, rc_end = 48,
                                       rc_vars = [\<lparr> r_start = 33, r_end = 34 \<rparr>],
                                       rc_left = \<lparr> r_start = 33, r_end = 34 \<rparr>,
                                       rc_rightExpression = \<lparr> r_start = 41, r_end = 47 \<rparr> \<rparr>] \<rparr>,
       findReferences_at = (\<lambda>p. if p = 47
          then Some [\<lparr> l_uri = ''file.vue'', l_range = (47, 48) \<rparr>,
                     \<lparr> l_uri = ''file.vue'', l_range = (65, 66) \<rparr>,
                     \<lparr> l_uri = ''file.vue'', l_range = (76, 77) \<rparr>]
          else None),
       virtualScript_present = True,
       resolved_items = [],
       targetToSource = (\<lambda>r. None) \<rparr>"

text \<open>
  C8, with what it needs. The source has a declaration \<^verbatim>\<open>ref: x = e\<close> in its script-setup
  content and two later uses of the variable, each written \<^verbatim>\<open>x\<close> or \<^verbatim>\<open>$x\<close>; the name,
  the right-hand side and the text between the declaration and the first use are not
  empty. The parse data are those of the text, before and after the first toggle: the
  label, its right-hand side (not a computed call) and its variable, then the
  \<^verbatim>\<open>ref(...)\<close> declaration, its left-hand side and its argument. The references are the
  declaration and the two uses, in any order. The virtual script exists, the first
  toggle adds no import of \<^verbatim>\<open>ref\<close>, and no use written \<^verbatim>\<open>$x\<close> is directly followed by
  \<^verbatim>\<open>.value\<close>. Then the first toggle of the command turns the source into the text
  without the sugar, and the second toggle turns that text into the source again,
  character for character.
\<close>

theorem ref_sugar_round_trip:
  assumes "sh_name sh \<noteq> []" and "sh_init sh \<noteq> []" and "sh_gap1 sh \<noteq> []"
    and "sh_raw1 sh \<longrightarrow> \<not> prefix ''.value''
           (sh_gap2 sh @ use_plain (sh_raw2 sh) (sh_name sh) @ sh_rest sh @ sh_after sh)"
    and "sh_raw2 sh \<longrightarrow> \<not> prefix ''.value'' (sh_rest sh @ sh_after sh)"
    and "document_text env = sugared sh"
    and "desc_scriptSetup env = Some (length (sh_before sh), sugar_setup_end sh)"
    and "genData env = Some gd" and "labels gd = labels (sugar_parse sh)"
    and "findReferences_at env (decl_at sh + 5) = Some refs"
    and "mset refs = mset (sugar_references (document_uri env) sh)"
    and "virtualScript_present env"
    and "import_edits env = []"
    and "document_text env' = desugared sh"
    and "desc_scriptSetup env' = Some (length (sh_before sh), plain_setup_end sh)"
    and "genData env' = Some gd'" and "labels gd' = []"
    and "refCalls gd' = refCalls (plain_parse sh)"
    and "findReferences_at env' (decl_at sh + 6) = Some refs'"
    and "mset refs' = mset (plain_references (document_uri env') sh)"
  shows "toggle_ref_sugar env = Some (document_text env')
       \<and> toggle_ref_sugar env' = Some (document_text env)"
  using toggle_desugar[OF assms(1-3,6-13)] toggle_resugar[OF assms(1,4,5,14-20)] assms(6,14)
  by simp

theorem ref_sugar_round_trip_witness:
  "toggle_ref_sugar example_sugar_env
     = Some ''<script setup>const x = ref(ref(1));f(x.value);g(x)</script>''
   \<and> toggle_ref_sugar example_plain_env
       = Some ''<script setup>ref: x = ref(1);f(x);g($x)</script>''"
proof -
  have "toggle_ref_sugar example_sugar_env = Some (document_text example_plain_env)
       \<and> toggle_ref_sugar example_plain_env = Some (document_text example_sugar_env)"
  proof (rule ref_sugar_round_trip[where sh = example_shape])
    show "mset [\<lparr> l_uri = ''file.vue'', l_range = (19, 20) \<rparr>,
                \<lparr> l_uri = ''file.vue'', l_range = (37, 39) \<rparr>,
                \<lparr> l_uri = ''file.vue'', l_range = (32, 33) \<rparr>]
          = mset (sugar_references (document_uri example_sugar_env) example_shape)"
      by (simp add: sugar_references_def example_sugar_env_def example_shape_def decl_at_def
          sugar_use1_at_def sugar_use2_at_def use_sugar_def)
    show "mset [\<lparr> l_uri = ''file.vue'', l_range = (38, 39) \<rparr>,
                \<lparr> l_uri = ''file.vue'', l_range = (20, 21) \<rparr>,
                \<lparr> l_uri = ''file.vue'', l_range = (49, 50) \<rparr>]
          = mset (plain_references (document_uri example_plain_env) example_shape)"
      by (simp add: plain_references_def example_plain_env_def example_shape_def decl_at_def
          plain_use1_at_def plain_use2_at_def use_plain_def)
    show "genData example_sugar_env = Some (the (genData example_sugar_env))"
      by (simp add: example_sugar_env_def)
    show "genData example_plain_env = Some (the (genData example_plain_env))"
      by (simp add: example_plain_env_def)
  qed (simp_all add: sugared_def desugared_def use_sugar_def example_sugar_env_def
        example_plain_env_def example_shape_def sugar_setup_end_def plain_setup_end_def
        sugar_parse_def plain_parse_def decl_at_def import_edits_def use_plain_def)
  then show ?thesis
    by (simp add: example_sugar_env_def example_plain_env_def)
qed


text \<open>
  C8 as stated fails for two sources with the declaration \<^verbatim>\<open>ref: x = ref(1)\<close> and the
  uses \<^verbatim>\<open>x\<close> and \<^verbatim>\<open>$x\<close>. Where the use \<^verbatim>\<open>$x\<close> is followed by \<^verbatim>\<open>.value\<close>, the first toggle
  produces \<^verbatim>\<open>x.value\<close> for both uses and the second toggle turns both into \<^verbatim>\<open>x\<close>. Where
  the completion engine offers to import \<^verbatim>\<open>ref\<close>, the first toggle inserts the import and
  the second toggle leaves it in the text.
\<close>

theorem ref_sugar_round_trip_counterexample:
  "document_text accessor_sugar_env
     = ''<script setup>ref: x = ref(1);f(x);g($x.value)</script>''
   \<and> toggle_ref_sugar accessor_sugar_env = Some (document_text accessor_plain_env)
   \<and> toggle_ref_sugar accessor_plain_env
       = Some ''<script setup>ref: x = ref(1);f(x);g(x)</script>''
   \<and> toggle_ref_sugar accessor_plain_env \<noteq> Some (document_text accessor_sugar_env)
   \<and> document_text import_sugar_env
       = ''<script setup> ref: x = ref(1);f(x);g($x)</script>''
   \<and> toggle_ref_sugar import_sugar_env = Some (document_text import_plain_env)
   \<and> toggle_ref_sugar import_plain_env
       = Some ''<script setup>import { ref } from 'vue'; ref: x = ref(1);f(x);g($x)</script>''
   \<and> toggle_ref_sugar import_plain_env \<noteq> Some (document_text import_sugar_env)"
proof -
  have 1: "toggle_ref_sugar accessor_sugar_env
      = Some ''<script setup>const x = ref(ref(1));f(x.value);g(x.value)</script>''"
    by (simp add: toggle_ref_sugar_def switch_ref_sugar_def accessor_sugar_env_def
        unuse_label_edits_def var_edits_def unuse_reference_edits_def import_edits_def
        TextEdit_replace_def clamp_offset_def substring_def applyEdits_def Let_def)
  have 2: "toggle_ref_sugar accessor_plain_env
      = Some ''<script setup>ref: x = ref(1);f(x);g(x)</script>''"
    by (simp add: toggle_ref_sugar_def switch_ref_sugar_def accessor_plain_env_def
        use_refCall_edits_def var_edits_def use_reference_edits_def substr_def
        TextEdit_replace_def clamp_offset_def substring_def applyEdits_def Let_def)
  have 3: "toggle_ref_sugar import_sugar_env
      = Some ''<script setup>import { ref } from 'vue'; const x = ref(ref(1));f(x.value);g(x)</script>''"
    by (simp add: toggle_ref_sugar_def switch_ref_sugar_def import_sugar_env_def
        unuse_label_edits_def var_edits_def unuse_reference_edits_def import_edits_def
        TextEdit_replace_def clamp_offset_def substring_def applyEdits_def Let_def)
  have 4: "toggle_ref_sugar import_plain_env
      = Some ''<script setup>import { ref } from 'vue'; ref: x = ref(1);f(x);g($x)</script>''"
    by (simp add: toggle_ref_sugar_def switch_ref_sugar_def import_plain_env_def
        use_refCall_edits_def var_edits_def use_reference_edits_def substr_def
        TextEdit_replace_def clamp_offset_def substring_def applyEdits_def Let_def)
  show ?thesis
    unfolding 1 2 3 4
    by (simp add: accessor_sugar_env_def accessor_plain_env_def import_sugar_env_def
        import_plain_env_def)
qed

end
